theory Spec2Isabelle
  imports Complex_Main
begin

section \<open>JavaScript strings\<close>

text \<open>
  Strings are lists of 8-bit characters (code units below 256). The helpers follow the
  ECMAScript definitions of \<^verbatim>\<open>String.prototype.trim\<close>, \<^verbatim>\<open>toLowerCase\<close> and
  \<^verbatim>\<open>includes\<close> on that range.
\<close>

definition isWhiteSpace :: "char \<Rightarrow> bool" where
  \<comment> \<open>TAB, LF, VT, FF, CR, SP and NBSP: the WhiteSpace and LineTerminator code units below 256.\<close>
  "isWhiteSpace c = (of_char c \<in> {9, 10, 11, 12, 13, 32, 160 :: nat})"

definition trimStart :: "string \<Rightarrow> string" where
  "trimStart s = dropWhile isWhiteSpace s"

definition trim :: "string \<Rightarrow> string" where
  "trim s = rev (dropWhile isWhiteSpace (rev (dropWhile isWhiteSpace s)))"

definition lowerChar :: "char \<Rightarrow> char" where
  \<comment> \<open>A-Z, and the Latin-1 capitals 0xC0-0xDE without the multiplication sign 0xD7.\<close>
  "lowerChar c =
     (let n = of_char c :: nat
      in if (65 \<le> n \<and> n \<le> 90) \<or> (192 \<le> n \<and> n \<le> 222 \<and> n \<noteq> 215)
         then char_of (n + 32) else c)"

definition toLowerCase :: "string \<Rightarrow> string" where
  "toLowerCase s = map lowerChar s"

fun includesStr :: "string \<Rightarrow> string \<Rightarrow> bool" where
  "includesStr [] needle = (needle = [])"
| "includesStr (c # cs) needle = (take (length needle) (c # cs) = needle \<or> includesStr cs needle)"

section \<open>JavaScript numbers read from text\<close>

definition isDigit :: "char \<Rightarrow> bool" where
  "isDigit c = (48 \<le> (of_char c :: nat) \<and> (of_char c :: nat) \<le> 57)"

definition digitValue :: "char \<Rightarrow> nat" where
  "digitValue c = of_char c - 48"

definition decimal :: "string \<Rightarrow> nat" where
  \<comment> \<open>the mathematical value of a string of decimal digits\<close>
  "decimal ds = foldl (\<lambda>n c. 10 * n + digitValue c) 0 ds"

text \<open>
  \<^verbatim>\<open>parseInt(s, 10)\<close>: skip leading white space, read an optional sign, take the longest
  run of decimal digits; no digit gives NaN, modelled as \<open>None\<close>. The result is the
  mathematical integer (a JavaScript number holds it exactly up to \<open>2^53\<close>); the sign of
  a zero is not kept.
\<close>

definition parseInt :: "string \<Rightarrow> int option" where
  "parseInt s =
     (let S = trimStart s;
          sign = (if S \<noteq> [] \<and> hd S = CHR ''-'' then - 1 else 1 :: int);
          S' = (if S \<noteq> [] \<and> (hd S = CHR ''+'' \<or> hd S = CHR ''-'') then tl S else S);
          Z = takeWhile isDigit S'
      in if Z = [] then None else Some (sign * int (decimal Z)))"

text \<open>
  \<^verbatim>\<open>parseFloat(s)\<close>: skip leading white space and take the longest prefix that is a
  StrDecimalLiteral: an optional sign, then \<^verbatim>\<open>Infinity\<close>, or digits with an optional
  fraction, or a fraction alone, each with an optional exponent. A finite result is kept as
  the exact decimal value; JavaScript rounds that value to the nearest double.
\<close>

datatype number = NaN | Infinity bool | Finite rat

definition exponentPart :: "string \<Rightarrow> int" where
  \<comment> \<open>the value of an ExponentPart at the head of the text, 0 when there is none\<close>
  "exponentPart r =
     (if r \<noteq> [] \<and> (hd r = CHR ''e'' \<or> hd r = CHR ''E'') then
        (let r1 = tl r;
             neg = (r1 \<noteq> [] \<and> hd r1 = CHR ''-'');
             r2 = (if r1 \<noteq> [] \<and> (hd r1 = CHR ''+'' \<or> hd r1 = CHR ''-'') then tl r1 else r1);
             E = takeWhile isDigit r2
         in if E = [] then 0 else if neg then - int (decimal E) else int (decimal E))
      else 0)"

definition parseFloat :: "string \<Rightarrow> number" where
  "parseFloat s =
     (let S = trimStart s;
          neg = (S \<noteq> [] \<and> hd S = CHR ''-'');
          S' = (if S \<noteq> [] \<and> (hd S = CHR ''+'' \<or> hd S = CHR ''-'') then tl S else S)
      in if take 8 S' = ''Infinity'' then Infinity neg
         else
           (let I = takeWhile isDigit S';
                r = dropWhile isDigit S';
                F = (if r \<noteq> [] \<and> hd r = CHR ''.'' then takeWhile isDigit (tl r) else []);
                r' = (if r \<noteq> [] \<and> hd r = CHR ''.'' then dropWhile isDigit (tl r) else r)
            in if I = [] \<and> F = [] then NaN
               else
                 (let m = of_nat (decimal I) + of_nat (decimal F) / 10 ^ length F :: rat;
                      v = m * 10 powi exponentPart r'
                  in Finite (if neg then - v else v))))"

text \<open>
  \<^verbatim>\<open>x || 0\<close> on a number: NaN and both zeros are falsy and give 0, every other number
  is kept.
\<close>

fun intOrZero :: "int option \<Rightarrow> int" where
  "intOrZero None = 0"
| "intOrZero (Some v) = v"

fun floatOrZero :: "number \<Rightarrow> number" where
  "floatOrZero NaN = Finite 0"
| "floatOrZero x = x"

section \<open>The parsed document and cheerio selections\<close>

text \<open>
  \<^verbatim>\<open>cheerio.load(html)\<close> returns the parsed document: a tree of text nodes and elements,
  an element carrying its lower-case tag name, its class list and its children.
\<close>

datatype node = Text string | Elem string "string list" "node list"

type_synonym path = "nat list"

text \<open>
  An element of a selection is a place in the document (the path of child indices from
  the root) together with the subtree found there, so that two equal subtrees at
  different places stay different elements.
\<close>

type_synonym element = "path \<times> node"
type_synonym selection = "element list"

fun descendants :: "node \<Rightarrow> element list"
  and childElements :: "nat \<Rightarrow> node list \<Rightarrow> element list" where
  "descendants (Text s) = []"
| "descendants (Elem tg cs ks) = childElements 0 ks"
| "childElements i [] = []"
| "childElements i (Text s # ks) = childElements (Suc i) ks"
| "childElements i (Elem tg cs js # ks) =
     (([i], Elem tg cs js) # map (\<lambda>(p, n). (i # p, n)) (descendants (Elem tg cs js)))
       @ childElements (Suc i) ks"

fun textContent :: "node \<Rightarrow> string" where
  "textContent (Text s) = s"
| "textContent (Elem tg cs ks) = concat (map textContent ks)"

text \<open>A compound selector \<^verbatim>\<open>tag.class1.class2\<close>; the empty tag stands for no tag test.\<close>

datatype compound = Compound string "string list"

fun matches :: "compound \<Rightarrow> node \<Rightarrow> bool" where
  "matches c (Text s) = False"
| "matches (Compound tg cls) (Elem tg' cls' ks) =
     ((tg = [] \<or> tg = tg') \<and> list_all (\<lambda>c. c \<in> set cls') cls)"

fun properPrefix :: "path \<Rightarrow> path \<Rightarrow> bool" where
  "properPrefix [] q = (q \<noteq> [])"
| "properPrefix (i # p) [] = False"
| "properPrefix (i # p) (j # q) = (i = j \<and> properPrefix p q)"

definition inside :: "selection \<Rightarrow> path \<Rightarrow> bool" where
  "inside ctx p = list_ex (\<lambda>(c, n). properPrefix c p) ctx"

text \<open>
  \<^verbatim>\<open>ctx.find(sel)\<close> for one compound selector: the elements of the document below some
  element of \<open>ctx\<close> that match, each once, in document order.
\<close>

definition find1 :: "node \<Rightarrow> compound \<Rightarrow> selection \<Rightarrow> selection" where
  "find1 doc c ctx = filter (\<lambda>(p, n). matches c n \<and> inside ctx p) (descendants doc)"

text \<open>
  A complex selector \<^verbatim>\<open>A B C\<close> (descendant combinators) is searched step by step: the
  elements matching \<open>C\<close> below an element matching \<open>B\<close> below an element matching \<open>A\<close> below
  the context. A selector list \<^verbatim>\<open>s1, s2\<close> gives the elements found by either, each once,
  in document order.
\<close>

definition findChain :: "node \<Rightarrow> compound list \<Rightarrow> selection \<Rightarrow> selection" where
  "findChain doc chain ctx = foldl (\<lambda>sel c. find1 doc c sel) ctx chain"

definition find_in :: "node \<Rightarrow> compound list list \<Rightarrow> selection \<Rightarrow> selection" where
  "find_in doc sels ctx =
     filter (\<lambda>e. list_ex (\<lambda>chain. e \<in> set (findChain doc chain ctx)) sels) (descendants doc)"

definition document :: "node \<Rightarrow> selection" where
  \<comment> \<open>the context of \<^verbatim>\<open>$(selector)\<close>: the document node itself\<close>
  "document doc = [([], doc)]"

definition text_of :: "selection \<Rightarrow> string" where
  \<comment> \<open>\<^verbatim>\<open>.text()\<close>: the text contents of the selected elements, concatenated\<close>
  "text_of sel = concat (map (\<lambda>(p, n). textContent n) sel)"

definition eq_at :: "selection \<Rightarrow> nat \<Rightarrow> selection" where
  \<comment> \<open>\<^verbatim>\<open>.eq(i)\<close>: the i-th element alone, or the empty selection out of range\<close>
  "eq_at sel i = (if i < length sel then [sel ! i] else [])"

definition first_of :: "selection \<Rightarrow> selection" where
  "first_of sel = take 1 sel"

section \<open>types.ts\<close>

record TeamStanding =
  ts_team :: string
  ts_gp :: int
  ts_w :: int
  ts_l :: int
  ts_t :: int
  ts_otl :: int
  ts_pts :: int
  ts_wpct :: number
  ts_position :: nat

record PlayerStats =
  ps_rank :: nat
  ps_name :: string
  ps_jerseyNumber :: string
  ps_position :: string
  ps_team :: string
  ps_gp :: int
  ps_goals :: int
  ps_assists :: int
  ps_points :: int
  ps_pointsPerGame :: number
  ps_ppg :: int
  ps_ppa :: int
  ps_shg :: int
  ps_sha :: int
  ps_gwg :: int
  ps_pim :: int

record GoalieStats =
  gs_rank :: nat
  gs_name :: string
  gs_team :: string
  gs_gp :: int
  gs_w :: int
  gs_l :: int
  gs_t :: int
  gs_otl :: int
  gs_so :: int
  gs_mp :: int
  gs_ga :: int
  gs_gaa :: number
  gs_gsaa :: number
  gs_sa :: int
  gs_sv :: int
  gs_svPct :: number
  gs_goals :: int
  gs_assists :: int
  gs_pim :: int

text \<open>
  \<^verbatim>\<open>DailySnapshot\<close>, \<^verbatim>\<open>PlayerStatsSnapshot\<close> and \<^verbatim>\<open>GoalieStatsSnapshot\<close> have one shape:
  a date and an object from division names to record arrays.
\<close>

record 'r Snapshot =
  date :: string
  divisions :: "string \<rightharpoonup> 'r list"

type_synonym DailySnapshot = "TeamStanding Snapshot"
type_synonym PlayerStatsSnapshot = "PlayerStats Snapshot"
type_synonym GoalieStatsSnapshot = "GoalieStats Snapshot"

definition DIVISION_NAMES :: "string list" where
  "DIVISION_NAMES = [''1-BRODEUR'', ''2-MANNO'', ''3-STEVENS NORTH'', ''3-STEVENS SOUTH'']"

definition DIVISION_IDS :: "string \<Rightarrow> string" where
  \<comment> \<open>a name outside the table reads \<^verbatim>\<open>undefined\<close>, which a template string prints so\<close>
  "DIVISION_IDS divisionName =
     (case map_of [(''1-BRODEUR'', ''129531''), (''2-MANNO'', ''129533''),
                   (''3-STEVENS NORTH'', ''129532''), (''3-STEVENS SOUTH'', ''130945'')]
             divisionName of
        Some divID \<Rightarrow> divID
      | None \<Rightarrow> ''undefined'')"

section \<open>The outside world: fetch and the clock\<close>

text \<open>
  A rejected promise or a thrown \<^verbatim>\<open>Error\<close> is a value. \<^verbatim>\<open>fetch(url)\<close> either rejects or
  resolves to a response; the body of a response is what \<^verbatim>\<open>response.text()\<close> followed by
  \<^verbatim>\<open>cheerio.load\<close> gives: a rejection or the parsed document. The date of
  \<^verbatim>\<open>getTodayISO()\<close> is a parameter.
\<close>

datatype jserror = Rejected string | Error string

record response =
  resp_ok :: bool
  resp_status :: nat
  resp_statusText :: string
  resp_body :: "jserror + node"

type_synonym fetcher = "string \<Rightarrow> jserror + response"

function showNat :: "nat \<Rightarrow> string" where
  "showNat n = (if n < 10 then [char_of (48 + n)] else showNat (n div 10) @ [char_of (48 + n mod 10)])"
  by pat_completeness auto
termination
  by (relation "measure id") auto

section \<open>Cells of a row\<close>

text \<open>
  The expressions \<^verbatim>\<open>cells.eq(i).text().trim()\<close>, \<^verbatim>\<open>parseInt(cells.eq(i).text().trim(), 10) || 0\<close>
  and \<^verbatim>\<open>parseFloat(cells.eq(i).text().trim()) || 0\<close>, which the three scrapers repeat for
  every field.
\<close>

definition cellText :: "selection \<Rightarrow> nat \<Rightarrow> string" where
  "cellText cells i = trim (text_of (eq_at cells i))"

definition intCell :: "selection \<Rightarrow> nat \<Rightarrow> int" where
  "intCell cells i = intOrZero (parseInt (cellText cells i))"

definition floatCell :: "selection \<Rightarrow> nat \<Rightarrow> number" where
  "floatCell cells i = floatOrZero (parseFloat (cellText cells i))"

section \<open>scraper.ts\<close>

definition HNA_STANDINGS_URL :: string where
  "HNA_STANDINGS_URL = ''https://www.hna.com/leagues/standings.cfm?leagueID=5750&clientID=2296''"

definition hasStandingsData :: "node \<Rightarrow> element \<Rightarrow> bool" where
  \<comment> \<open>the first loop's test of one table: some row of its tbody has 8 cells or more\<close>
  "hasStandingsData doc table =
     (let tbody = find_in doc [[Compound ''tbody'' []]] [table];
          rows = find_in doc [[Compound ''tr'' []]] tbody
      in list_ex (\<lambda>row. length (find_in doc [[Compound ''td'' []]] [row]) \<ge> 8) rows)"

definition standingsTables :: "node \<Rightarrow> selection" where
  "standingsTables doc =
     filter (hasStandingsData doc) (find_in doc [[Compound ''table'' []]] (document doc))"

definition teamNameOf :: "node \<Rightarrow> selection \<Rightarrow> string" where
  "teamNameOf doc cells =
     (let teamCell = eq_at cells 0;
          teamLink = find_in doc [[Compound ''a'' []]] teamCell
      in if length teamLink > 0 then
           (let fullNameSpan = find_in doc [[Compound ''span'' [''d-sm-inline'']]] teamLink
            in if length fullNameSpan > 0 then trim (text_of fullNameSpan)
               else trim (text_of teamLink))
         else trim (text_of teamCell))"

definition standingsRow :: "node \<Rightarrow> TeamStanding list \<Rightarrow> element \<Rightarrow> TeamStanding list" where
  \<comment> \<open>the body of \<^verbatim>\<open>rows.each\<close>: the array \<^verbatim>\<open>teams\<close> before and after one row\<close>
  "standingsRow doc teams row =
     (let cells = find_in doc [[Compound ''td'' []]] [row]
      in if length cells \<ge> 8 then
           (let teamName = teamNameOf doc cells
            in if teamName = [] \<or> toLowerCase teamName = ''team'' then teams
               else teams @
                 [\<lparr>ts_team = teamName,
                   ts_gp = intCell cells 1,
                   ts_w = intCell cells 2,
                   ts_l = intCell cells 3,
                   ts_t = intCell cells 4,
                   ts_otl = intCell cells 5,
                   ts_pts = intCell cells 6,
                   ts_wpct = floatCell cells 7,
                   ts_position = length teams + 1\<rparr>])
         else teams)"

definition divisionTeams :: "node \<Rightarrow> selection \<Rightarrow> nat \<Rightarrow> TeamStanding list" where
  \<comment> \<open>the body of \<^verbatim>\<open>DIVISION_NAMES.forEach\<close> up to the assignment\<close>
  "divisionTeams doc tables index =
     (if index < length tables then
        (let table = [tables ! index];
             rows = find_in doc [[Compound ''tbody'' [], Compound ''tr'' []]] table
         in foldl (standingsRow doc) [] rows)
      else [])"

definition standingsDivisions :: "node \<Rightarrow> (string \<rightharpoonup> TeamStanding list)" where
  "standingsDivisions doc =
     (let tables = standingsTables doc
      in foldl (\<lambda>divisions (index, divisionName).
                  divisions(divisionName \<mapsto> divisionTeams doc tables index))
           Map.empty (enumerate 0 DIVISION_NAMES))"

definition scrapeStandings :: "fetcher \<Rightarrow> string \<Rightarrow> jserror + DailySnapshot" where
  "scrapeStandings fetch today =
     (case fetch HNA_STANDINGS_URL of
        Inl e \<Rightarrow> Inl e
      | Inr response \<Rightarrow>
          if \<not> resp_ok response then
            Inl (Error (''Failed to fetch standings: '' @ showNat (resp_status response)
                          @ '' '' @ resp_statusText response))
          else
            (case resp_body response of
               Inl e \<Rightarrow> Inl e
             | Inr doc \<Rightarrow> Inr \<lparr>date = today, divisions = standingsDivisions doc\<rparr>))"

section \<open>config.ts and goalieStatsScraper.ts\<close>

definition HNA_BASE_URL :: string where
  "HNA_BASE_URL = ''https://www.hna.com/leagues/stats_hockey.cfm''"

definition LEAGUE_ID :: string where
  "LEAGUE_ID = ''5750''"

definition CLIENT_ID :: string where
  "CLIENT_ID = ''2296''"

definition buildGoalieStatsUrl :: "string \<Rightarrow> string" where
  "buildGoalieStatsUrl divisionName =
     (let divID = DIVISION_IDS divisionName
      in HNA_BASE_URL @ ''?clientid='' @ CLIENT_ID @ ''&leagueID='' @ LEAGUE_ID
           @ ''&divID='' @ divID @ ''&statType=goalie&printPage=0'')"

definition goalieNameOf :: "node \<Rightarrow> selection \<Rightarrow> string" where
  "goalieNameOf doc cells =
     (let goalieCell = eq_at cells 1;
          desktopNameSpan =
            find_in doc [[Compound ''span'' [''d-none'', ''d-sm-block''], Compound ''a'' []],
                         [Compound ''span'' [''d-sm-block''], Compound ''a'' []]] goalieCell;
          goalieName = (if length desktopNameSpan > 0 then trim (text_of desktopNameSpan)
                        else trim (text_of goalieCell))
      in if goalieName = [] then
           (let mobileNameSpan =
                  find_in doc [[Compound ''span'' [''d-sm-none''], Compound ''a'' []]] goalieCell
            in if length mobileNameSpan > 0 then trim (text_of mobileNameSpan)
               else trim (text_of goalieCell))
         else goalieName)"

definition goalieRow :: "node \<Rightarrow> GoalieStats list \<Rightarrow> nat \<times> element \<Rightarrow> GoalieStats list" where
  \<comment> \<open>the body of \<^verbatim>\<open>rows.each(function (index) ...)\<close>: the array \<^verbatim>\<open>goalies\<close> before and after\<close>
  "goalieRow doc goalies ir =
     (let index = fst ir;
          cells = find_in doc [[Compound ''td'' []]] [snd ir]
      in if length cells \<ge> 16 then
           (let goalieName = goalieNameOf doc cells
            in if goalieName = [] \<or> toLowerCase goalieName = ''goalie'' \<or> goalieName = []
               then goalies
               else
                 (let teamCell = eq_at cells 2;
                      teamAbbrSpan = first_of (find_in doc [[Compound ''span'' []]] teamCell);
                      team = (if length teamAbbrSpan > 0 then trim (text_of teamAbbrSpan)
                              else trim (text_of teamCell));
                      svPctText = cellText cells 15;
                      svPct = floatOrZero (parseFloat svPctText)
                  in goalies @
                       [\<lparr>gs_rank = index + 1,
                         gs_name = goalieName,
                         gs_team = team,
                         gs_gp = intCell cells 3,
                         gs_w = intCell cells 4,
                         gs_l = intCell cells 5,
                         gs_t = intCell cells 6,
                         gs_otl = intCell cells 7,
                         gs_so = intCell cells 8,
                         gs_mp = intCell cells 9,
                         gs_ga = intCell cells 10,
                         gs_gaa = floatCell cells 11,
                         gs_gsaa = floatCell cells 12,
                         gs_sa = intCell cells 13,
                         gs_sv = intCell cells 14,
                         gs_svPct = svPct,
                         gs_goals = intCell cells 16,
                         gs_assists = intCell cells 17,
                         gs_pim = intCell cells 18\<rparr>]))
         else goalies)"

definition goalieStatsOf :: "node \<Rightarrow> GoalieStats list" where
  \<comment> \<open>\<^verbatim>\<open>scrapeDivisionGoalieStats\<close> from the loaded document on\<close>
  "goalieStatsOf doc =
     (let table = find_in doc [[Compound ''table'' [''leaders'']]] (document doc)
      in if length table > 0 then
           (let rows = find_in doc [[Compound ''tbody'' [], Compound ''tr'' []]] table
            in foldl (goalieRow doc) [] (enumerate 0 rows))
         else [])"

definition scrapeDivisionGoalieStats :: "fetcher \<Rightarrow> string \<Rightarrow> jserror + GoalieStats list" where
  "scrapeDivisionGoalieStats fetch divisionName =
     (let url = buildGoalieStatsUrl divisionName
      in case fetch url of
           Inl e \<Rightarrow> Inl e
         | Inr response \<Rightarrow>
             if \<not> resp_ok response then
               Inl (Error (''Failed to fetch goalie stats for '' @ divisionName @ '': ''
                             @ showNat (resp_status response) @ '' '' @ resp_statusText response))
             else
               (case resp_body response of
                  Inl e \<Rightarrow> Inl e
                | Inr doc \<Rightarrow> Inr (goalieStatsOf doc)))"

definition scrapeGoalieStats :: "fetcher \<Rightarrow> string \<Rightarrow> GoalieStatsSnapshot" where
  "scrapeGoalieStats fetch today =
     (let divisions =
            foldl (\<lambda>divisions divisionName.
                     case scrapeDivisionGoalieStats fetch divisionName of
                       Inr stats \<Rightarrow> divisions(divisionName \<mapsto> stats)
                     | Inl error \<Rightarrow> divisions(divisionName \<mapsto> []))
              Map.empty DIVISION_NAMES
      in \<lparr>date = today, divisions = divisions\<rparr>)"

section \<open>playerStatsScraper.ts\<close>

definition HNA_STATS_BASE_URL :: string where
  "HNA_STATS_BASE_URL =
     ''https://www.hna.com/leagues/stats_hockey.cfm?leagueID=5750&clientID=2296&printPage=1''"

definition playerNameOf :: "node \<Rightarrow> selection \<Rightarrow> string" where
  "playerNameOf doc cells =
     (let playerCell = eq_at cells 1;
          playerLink = find_in doc [[Compound ''a'' []]] playerCell
      in if length playerLink > 0 then trim (text_of playerLink) else trim (text_of playerCell))"

definition playerRow :: "node \<Rightarrow> PlayerStats list \<Rightarrow> nat \<times> element \<Rightarrow> PlayerStats list" where
  \<comment> \<open>the body of \<^verbatim>\<open>rows.each(function (index) ...)\<close>: the array \<^verbatim>\<open>players\<close> before and after\<close>
  "playerRow doc players ir =
     (let index = fst ir;
          cells = find_in doc [[Compound ''td'' []]] [snd ir]
      in if length cells \<ge> 16 then
           (let playerName = playerNameOf doc cells
            in if playerName = [] \<or> toLowerCase playerName = ''player'' \<or> playerName = []
               then players
               else players @
                 [\<lparr>ps_rank = index + 1,
                   ps_name = playerName,
                   ps_jerseyNumber = cellText cells 2,
                   ps_position = cellText cells 3,
                   ps_team = cellText cells 4,
                   ps_gp = intCell cells 5,
                   ps_goals = intCell cells 6,
                   ps_assists = intCell cells 7,
                   ps_points = intCell cells 8,
                   ps_pointsPerGame = floatCell cells 9,
                   ps_ppg = intCell cells 10,
                   ps_ppa = intCell cells 11,
                   ps_shg = intCell cells 12,
                   ps_sha = intCell cells 13,
                   ps_gwg = intCell cells 14,
                   ps_pim = intCell cells 15\<rparr>])
         else players)"

definition looksLikePlayerStats :: "node \<Rightarrow> element \<Rightarrow> bool" where
  \<comment> \<open>the test of one table in \<^verbatim>\<open>$("table").each\<close>\<close>
  "looksLikePlayerStats doc table =
     (let headerRow = first_of (find_in doc [[Compound ''thead'' [], Compound ''tr'' []],
                                             [Compound ''tr'' []]] [table]);
          headerText = toLowerCase (text_of headerRow)
      in includesStr headerText ''player'' \<and> includesStr headerText ''gp''
           \<and> includesStr headerText ''pts'')"

definition playerTable :: "node \<Rightarrow> PlayerStats list \<Rightarrow> element \<Rightarrow> PlayerStats list" where
  \<comment> \<open>the body of \<^verbatim>\<open>$("table").each\<close>: the array \<^verbatim>\<open>players\<close> before and after one table\<close>
  "playerTable doc players table =
     (if looksLikePlayerStats doc table then
        (let rows = find_in doc [[Compound ''tbody'' [], Compound ''tr'' []]] [table]
         in foldl (playerRow doc) players (enumerate 0 rows))
      else players)"

definition playerStatsOf :: "node \<Rightarrow> PlayerStats list" where
  \<comment> \<open>\<^verbatim>\<open>scrapeDivisionStats\<close> from the loaded document on\<close>
  "playerStatsOf doc =
     foldl (playerTable doc) [] (find_in doc [[Compound ''table'' []]] (document doc))"

definition scrapeDivisionStats :: "fetcher \<Rightarrow> string \<Rightarrow> jserror + PlayerStats list" where
  "scrapeDivisionStats fetch divisionName =
     (let divisionId = DIVISION_IDS divisionName;
          url = HNA_STATS_BASE_URL @ ''&divID='' @ divisionId
      in case fetch url of
           Inl e \<Rightarrow> Inl e
         | Inr response \<Rightarrow>
             if \<not> resp_ok response then
               Inl (Error (''Failed to fetch stats for '' @ divisionName @ '': ''
                             @ showNat (resp_status response) @ '' '' @ resp_statusText response))
             else
               (case resp_body response of
                  Inl e \<Rightarrow> Inl e
                | Inr doc \<Rightarrow> Inr (playerStatsOf doc)))"

definition scrapePlayerStats :: "fetcher \<Rightarrow> string \<Rightarrow> PlayerStatsSnapshot" where
  "scrapePlayerStats fetch today =
     (let divisions =
            foldl (\<lambda>divisions divisionName.
                     case scrapeDivisionStats fetch divisionName of
                       Inr stats \<Rightarrow> divisions(divisionName \<mapsto> stats)
                     | Inl error \<Rightarrow> divisions(divisionName \<mapsto> []))
              Map.empty DIVISION_NAMES
      in \<lparr>date = today, divisions = divisions\<rparr>)"

section \<open>Predicates and example documents used in the statements\<close>



text \<open>Cells and rows that hold plain text, for the example documents.\<close>

definition tdOf :: "string \<Rightarrow> node" where
  "tdOf s = Elem ''td'' [] [Text s]"

definition trOf :: "string list \<Rightarrow> node" where
  "trOf ss = Elem ''tr'' [] (map tdOf ss)"

text \<open>
  An element of a subtree, seen from the document: its path is prolonged by the path of the
  subtree's root.
\<close>

definition below :: "path \<Rightarrow> element \<Rightarrow> element" where
  "below p e = (p @ fst e, snd e)"

text \<open>What a \<^verbatim>\<open>try\<close>/\<^verbatim>\<open>catch\<close> around one division leaves: the records, or none.\<close>

definition caught :: "jserror + 'r list \<Rightarrow> 'r list" where
  "caught r = (case r of Inl e \<Rightarrow> [] | Inr stats \<Rightarrow> stats)"

text \<open>The elements with a given tag inside a node, in document order.\<close>

definition elementsOf :: "string \<Rightarrow> node \<Rightarrow> selection" where
  "elementsOf tg n = filter (\<lambda>e. matches (Compound tg []) (snd e)) (descendants n)"

text \<open>The table of the end-to-end example, and pages built around it.\<close>

definition exampleTable :: node where
  "exampleTable =
     Elem ''table'' []
       [Elem ''tbody'' []
          [trOf [''Stealth'', ''10'', ''7'', ''2'', ''1'', ''0'', ''15'', ''.750''],
           trOf [''Devils'', ''10'', ''6'', ''3'', ''1'', ''0'', ''13'', ''.650''],
           trOf ['''', '''', '''', '''', '''', '''', '''', '''']]]"

definition standingsPage :: node where
  \<comment> \<open>a table that does not qualify, then two that do\<close>
  "standingsPage =
     Elem ''#document'' []
       [Elem ''table'' [] [Elem ''tbody'' [] [trOf [''Standings'']]],
        exampleTable,
        Elem ''table'' []
          [Elem ''tbody'' []
             [trOf [''Knights'', ''9'', ''5'', ''4'', ''0'', ''0'', ''10'', ''.556'']]]]"

definition goaliePage :: node where
  \<comment> \<open>a leaders table whose tbody starts with a header row\<close>
  "goaliePage =
     Elem ''#document'' []
       [Elem ''table'' [''leaders'']
          [Elem ''tbody'' []
             [trOf ['''', ''Goalie'', ''Team'', ''GP'', ''W'', ''L'', ''T'', ''OTL'', ''SO'', ''MP'',
                    ''GA'', ''GAA'', ''GSAA'', ''SA'', ''SV'', ''SV%'', ''G'', ''A'', ''PIM''],
              trOf ['''', ''A. Smith'', ''STL'', ''5'', ''3'', ''1'', ''1'', ''0'', ''1'', ''300'',
                    ''10'', ''2.00'', ''1.5'', ''100'', ''90'', ''.900'', ''0'', ''1'', ''2'']]]]"

definition playerPage :: node where
  \<comment> \<open>a stats table with its header in thead and a short row before the first player\<close>
  "playerPage =
     Elem ''#document'' []
       [Elem ''table'' []
          [Elem ''thead'' [] [Elem ''tr'' [] [Elem ''th'' [] [Text ''Rank Player GP G A PTS'']]],
           Elem ''tbody'' []
             [trOf [''Scoring leaders''],
              trOf [''1'', ''B. Jones'', ''9'', ''F'', ''STL'', ''10'', ''5'', ''7'', ''12'', ''1.20'',
                    ''1'', ''2'', ''0'', ''0'', ''1'', ''4'']]]]"

definition okResponse :: "node \<Rightarrow> response" where
  "okResponse doc = \<lparr>resp_ok = True, resp_status = 200, resp_statusText = ''OK'', resp_body = Inr doc\<rparr>"

definition flakyFetch :: fetcher where
  \<comment> \<open>the server answers 503 for one goalie page and the network fails for one player page\<close>
  "flakyFetch url =
     (if url = buildGoalieStatsUrl ''2-MANNO'' then
        Inr \<lparr>resp_ok = False, resp_status = 503, resp_statusText = ''Service Unavailable'',
             resp_body = Inl (Rejected ''body not read'')\<rparr>
      else if url = HNA_STATS_BASE_URL @ ''&divID='' @ DIVISION_IDS ''2-MANNO'' then
        Inl (Rejected ''network error'')
      else if url = HNA_STANDINGS_URL then Inr (okResponse standingsPage)
      else if url = buildGoalieStatsUrl ''1-BRODEUR'' then Inr (okResponse goaliePage)
      else if url = HNA_STATS_BASE_URL @ ''&divID='' @ DIVISION_IDS ''1-BRODEUR'' then
        Inr (okResponse playerPage)
      else Inr (okResponse (Elem ''#document'' [] [])))"

text \<open>
  A table in tree terms: whether some row inside one of its tbody elements has 8 cells or
  more, the rows inside its tbody elements in document order, and the standings records
  decoded from those rows with the table taken as the whole document.
\<close>

definition hasWideRow :: "node \<Rightarrow> bool" where
  "hasWideRow T =
     list_ex (\<lambda>tbody. list_ex (\<lambda>row. 8 \<le> length (elementsOf ''td'' (snd row)))
                         (elementsOf ''tr'' (snd tbody)))
       (elementsOf ''tbody'' T)"

definition tbodyRows :: "node \<Rightarrow> selection" where
  "tbodyRows T =
     filter (\<lambda>row. matches (Compound ''tr'' []) (snd row)
                    \<and> list_ex (\<lambda>tbody. properPrefix (fst tbody) (fst row)) (elementsOf ''tbody'' T))
       (descendants T)"

definition tableTeams :: "node \<Rightarrow> TeamStanding list" where
  "tableTeams T = foldl (standingsRow T) [] (tbodyRows T)"

text \<open>
  The rows of a document that lie inside a tbody inside a table with class
  \<^verbatim>\<open>leaders\<close>, in document order.
\<close>

definition leadersRows :: "node \<Rightarrow> selection" where
  "leadersRows doc =
     filter (\<lambda>row. matches (Compound ''tr'' []) (snd row)
                    \<and> list_ex (\<lambda>tbody. properPrefix (fst tbody) (fst row)
                                 \<and> list_ex (\<lambda>table. matches (Compound ''table'' [''leaders'']) (snd table)
                                                     \<and> properPrefix (fst table) (fst tbody))
                                      (descendants doc))
                         (elementsOf ''tbody'' doc))
       (descendants doc)"

text \<open>
  The header test of the player stats table in tree terms: the text of the first row
  inside the table, in lower case, holds the three keywords.
\<close>

definition headerMatches :: "node \<Rightarrow> bool" where
  "headerMatches T =
     (let headerText = toLowerCase (text_of (take 1 (elementsOf ''tr'' T)))
      in includesStr headerText ''player'' \<and> includesStr headerText ''gp''
           \<and> includesStr headerText ''pts'')"

text \<open>
  When a row is to be dropped: too few cells, or a primary name that is empty or is the
  header label up to case.
\<close>

definition dropped :: "nat \<Rightarrow> string \<Rightarrow> selection \<Rightarrow> string \<Rightarrow> bool" where
  "dropped minCells label cells name =
     (length cells < minCells \<or> name = [] \<or> toLowerCase name = toLowerCase label)"

text \<open>Single rows of the example pages, and a name cell with both spans inside a link.\<close>

definition emptyRow :: node where
  "emptyRow = trOf ['''', '''', '''', '''', '''', '''', '''', '''']"

definition stealthRow :: node where
  "stealthRow = trOf [''Stealth'', ''10'', ''7'', ''2'', ''1'', ''0'', ''15'', ''.750'']"

definition goalieHeaderRow :: node where
  "goalieHeaderRow =
     trOf ['''', ''Goalie'', ''Team'', ''GP'', ''W'', ''L'', ''T'', ''OTL'', ''SO'', ''MP'',
           ''GA'', ''GAA'', ''GSAA'', ''SA'', ''SV'', ''SV%'', ''G'', ''A'', ''PIM'']"

definition nameCell :: node where
  "nameCell =
     Elem ''td'' []
       [Elem ''a'' []
          [Elem ''span'' [''d-none'', ''d-sm-inline''] [Text '' Jersey Knights ''],
           Elem ''span'' [''d-sm-none''] [Text ''KNKL'']]]"

definition namePage :: node where
  "namePage = Elem ''#document'' [] [Elem ''table'' [] [Elem ''tbody'' [] [Elem ''tr'' [] [nameCell]]]]"



section \<open>Facts about the string and number helpers\<close>






















section \<open>Facts about documents and selections\<close>

lemma below_single: "(\<lambda>(p, n). (i # p, n)) = below [i]"
  by (auto simp: below_def fun_eq_iff)

lemma below_below: "below p (below q e) = below (p @ q) e"
  by (simp add: below_def)

lemma childElements_Cons_Elem:
  "k = Elem tg cs js \<Longrightarrow>
   childElements i (k # ks) = ([i], k) # map (below [i]) (descendants k) @ childElements (Suc i) ks"
  by (simp add: below_single)

lemma childElements_heads:
  "e \<in> set (childElements i ks) \<Longrightarrow> \<exists>j r. fst e = j # r \<and> i \<le> j"
proof (induction ks arbitrary: i)
  case Nil
  then show ?case by simp
next
  case (Cons k ks)
  show ?case
  proof (cases k)
    case (Text s)
    with Cons.prems have "e \<in> set (childElements (Suc i) ks)" by simp
    from Cons.IH [OF this] show ?thesis by auto
  next
    case (Elem tg cs js)
    from Cons.prems consider "e = ([i], k)"
      | "e \<in> below [i] ` set (descendants k)"
      | "e \<in> set (childElements (Suc i) ks)"
      unfolding childElements_Cons_Elem [OF Elem] by auto
    then show ?thesis
    proof cases
      case 1
      then show ?thesis by simp
    next
      case 2
      then show ?thesis by (auto simp: below_def)
    next
      case 3
      from Cons.IH [OF this] show ?thesis by auto
    qed
  qed
qed

lemma descendants_nonempty_path: "e \<in> set (descendants n) \<Longrightarrow> fst e \<noteq> []"
  by (cases n) (auto dest: childElements_heads)

lemma properPrefix_Cons: "properPrefix (i # p) q \<longleftrightarrow> (\<exists>r. q = i # r \<and> properPrefix p r)"
  by (cases q) auto

lemma properPrefix_Nil2 [simp]: "\<not> properPrefix p []"
  by (cases p) auto

lemma properPrefix_append: "properPrefix (p @ q) (p @ r) \<longleftrightarrow> properPrefix q r"
  by (induction p) auto

lemma childElements_local:
  assumes "\<And>k e. k \<in> set ks \<Longrightarrow> e \<in> set (descendants k) \<Longrightarrow>
      filter (\<lambda>e'. properPrefix (fst e) (fst e')) (descendants k) = map (below (fst e)) (descendants (snd e))"
    and "e \<in> set (childElements i ks)"
  shows "filter (\<lambda>e'. properPrefix (fst e) (fst e')) (childElements i ks)
         = map (below (fst e)) (descendants (snd e))"
  using assms
proof (induction ks arbitrary: i)
  case Nil
  then show ?case by simp
next
  case (Cons k ks)
  have IH: "filter (\<lambda>e'. properPrefix (fst e) (fst e')) (childElements (Suc i) ks)
         = map (below (fst e)) (descendants (snd e))" if "e \<in> set (childElements (Suc i) ks)"
    using Cons.IH [OF _ that] Cons.prems(1) by simp
  have later: "filter (\<lambda>e'. properPrefix (i # p) (fst e')) (childElements (Suc i) ks) = []" for p
  proof -
    have "\<not> properPrefix (i # p) (fst e')" if "e' \<in> set (childElements (Suc i) ks)" for e'
      using childElements_heads [OF that] by (auto simp: properPrefix_Cons)
    then show ?thesis by (simp add: filter_empty_conv)
  qed
  show ?case
  proof (cases k)
    case (Text s)
    with Cons.prems(2) IH show ?thesis by simp
  next
    case (Elem tg cs js)
    let ?sub = "map (below [i]) (descendants k)"
    note ce = childElements_Cons_Elem [OF Elem, of i ks]
    from Cons.prems(2) consider "e = ([i], k)"
      | e0 where "e0 \<in> set (descendants k)" "e = below [i] e0"
      | "e \<in> set (childElements (Suc i) ks)"
      unfolding ce by auto
    then show ?thesis
    proof cases
      case 1
      have "filter (\<lambda>e'. properPrefix [i] (fst e')) ?sub = ?sub"
        by (auto simp: filter_id_conv below_def dest: descendants_nonempty_path)
      then show ?thesis
        using later [of "[]"] unfolding ce 1 by simp
    next
      case 2
      have fe: "fst e = i # fst e0" "snd e = snd e0"
        by (simp_all add: 2(2) below_def)
      have "filter (\<lambda>e'. properPrefix (i # fst e0) (fst e')) ?sub
            = map (below [i]) (filter (\<lambda>e'. properPrefix (fst e0) (fst e')) (descendants k))"
        by (simp add: filter_map o_def below_def)
      also have "\<dots> = map (below [i]) (map (below (fst e0)) (descendants (snd e0)))"
        using Cons.prems(1) [OF _ 2(1)] by simp
      also have "\<dots> = map (below (i # fst e0)) (descendants (snd e0))"
        by (simp add: below_below o_def)
      finally show ?thesis
        using later [of "fst e0"] unfolding ce fe by simp
    next
      case 3
      from childElements_heads [OF 3] obtain j r where jr: "fst e = j # r" "Suc i \<le> j" by auto
      then have "\<not> properPrefix (fst e) [i]"
        by simp
      moreover have "filter (\<lambda>e'. properPrefix (fst e) (fst e')) ?sub = []"
        using jr by (auto simp: filter_empty_conv below_def)
      ultimately show ?thesis
        using IH [OF 3] unfolding ce by simp
    qed
  qed
qed

lemma descendants_local:
  "e \<in> set (descendants n) \<Longrightarrow>
   filter (\<lambda>e'. properPrefix (fst e) (fst e')) (descendants n) = map (below (fst e)) (descendants (snd e))"
proof (induction n arbitrary: e)
  case (Text s)
  then show ?case by simp
next
  case (Elem tg cs ks)
  from Elem.prems have "e \<in> set (childElements 0 ks)" by simp
  then have "filter (\<lambda>e'. properPrefix (fst e) (fst e')) (childElements 0 ks)
         = map (below (fst e)) (descendants (snd e))"
    using Elem.IH by (intro childElements_local) auto
  then show ?case by simp
qed

lemma fst_below [simp]: "fst (below p e) = p @ fst e"
  and snd_below [simp]: "snd (below p e) = snd e"
  by (simp_all add: below_def)

lemma below_Nil [simp]: "below [] e = e"
  by (simp add: below_def)

lemma below_inj: "below p e = below p e' \<longleftrightarrow> e = e'"
  by (auto simp: below_def prod_eq_iff)

lemma below_mem: "below p x \<in> set (map (below p) xs) \<longleftrightarrow> x \<in> set xs"
  by (auto simp: below_inj)

lemma properPrefix_trans: "properPrefix (p @ c) q \<Longrightarrow> properPrefix p q"
proof (induction p arbitrary: q)
  case Nil
  then show ?case by (cases c) auto
next
  case (Cons i p)
  then show ?case by (cases q) auto
qed

lemma properPrefix_same: "properPrefix p (p @ q) \<longleftrightarrow> q \<noteq> []"
  by (induction p) auto

lemma descendants_trans:
  assumes "e \<in> set (descendants n)" and "e' \<in> set (descendants (snd e))"
  shows "below (fst e) e' \<in> set (descendants n)"
proof -
  from assms(2) have "below (fst e) e' \<in> set (map (below (fst e)) (descendants (snd e)))"
    by simp
  then have "below (fst e) e' \<in> set (filter (\<lambda>e'. properPrefix (fst e) (fst e')) (descendants n))"
    by (simp only: descendants_local [OF assms(1)])
  then show ?thesis by simp
qed

lemma inside_below: "inside (map (below p) ctx) (p @ q) \<longleftrightarrow> inside ctx q"
  by (induction ctx) (auto simp: inside_def properPrefix_append split_def)

lemma inside_below_prefix: "inside (map (below p) ctx) q \<Longrightarrow> properPrefix p q"
  by (induction ctx) (auto simp: inside_def split_def dest: properPrefix_trans)

lemma find1_reroot:
  assumes "e \<in> set (descendants doc)"
  shows "find1 doc c (map (below (fst e)) ctx) = map (below (fst e)) (find1 (snd e) c ctx)"
proof -
  let ?p = "fst e"
  let ?ctx = "map (below ?p) ctx"
  have "find1 doc c ?ctx
        = filter (\<lambda>x. matches c (snd x) \<and> inside ?ctx (fst x))
            (filter (\<lambda>x. properPrefix ?p (fst x)) (descendants doc))"
    unfolding find1_def by (auto simp: split_def intro!: filter_cong dest: inside_below_prefix)
  also have "\<dots> = filter (\<lambda>x. matches c (snd x) \<and> inside ?ctx (fst x))
                     (map (below ?p) (descendants (snd e)))"
    by (simp only: descendants_local [OF assms])
  also have "\<dots> = map (below ?p) (filter (\<lambda>x. matches c (snd x) \<and> inside ctx (fst x))
                     (descendants (snd e)))"
    by (simp add: filter_map o_def inside_below)
  finally show ?thesis by (simp add: find1_def split_def)
qed

lemma findChain_reroot:
  assumes "e \<in> set (descendants doc)"
  shows "findChain doc chain (map (below (fst e)) ctx)
         = map (below (fst e)) (findChain (snd e) chain ctx)"
  unfolding findChain_def
  by (induction chain arbitrary: ctx) (simp_all add: find1_reroot [OF assms])

lemma find1_subset: "set (find1 doc c ctx) \<subseteq> set (descendants doc)"
  by (auto simp: find1_def)

lemma findChain_subset: "chain \<noteq> [] \<Longrightarrow> set (findChain doc chain ctx) \<subseteq> set (descendants doc)"
proof (induction chain arbitrary: ctx rule: rev_induct)
  case Nil
  then show ?case by simp
next
  case (snoc c chain)
  then show ?case using find1_subset by (simp add: findChain_def)
qed

lemma find_in_reroot:
  assumes e: "e \<in> set (descendants doc)" and ne: "[] \<notin> set sels"
  shows "find_in doc sels (map (below (fst e)) ctx) = map (below (fst e)) (find_in (snd e) sels ctx)"
proof -
  let ?p = "fst e"
  let ?hit = "\<lambda>x. list_ex (\<lambda>chain. x \<in> set (findChain doc chain (map (below ?p) ctx))) sels"
  let ?sub = "\<lambda>x. list_ex (\<lambda>chain. x \<in> set (findChain (snd e) chain ctx)) sels"
  have hit_below: "?hit (below ?p x) \<longleftrightarrow> ?sub x" for x
    by (simp only: findChain_reroot [OF e] list_ex_iff below_mem)
  have hit_prefix: "properPrefix ?p (fst x)" if "?hit x" for x
  proof -
    from that obtain chain where ch: "chain \<in> set sels"
        "x \<in> set (findChain doc chain (map (below ?p) ctx))"
      by (auto simp: list_ex_iff)
    from ch(1) ne have "chain \<noteq> []" by auto
    from ch(2) obtain x0 where x0: "x = below ?p x0" "x0 \<in> set (findChain (snd e) chain ctx)"
      by (auto simp: findChain_reroot [OF e])
    with findChain_subset [OF \<open>chain \<noteq> []\<close>] have "x0 \<in> set (descendants (snd e))" by blast
    then have "fst x0 \<noteq> []" by (rule descendants_nonempty_path)
    with x0(1) show ?thesis by (simp add: properPrefix_same)
  qed
  have "find_in doc sels (map (below ?p) ctx)
        = filter ?hit (filter (\<lambda>x. properPrefix ?p (fst x)) (descendants doc))"
    unfolding find_in_def by (auto intro!: filter_cong dest: hit_prefix)
  also have "\<dots> = filter ?hit (map (below ?p) (descendants (snd e)))"
    by (simp only: descendants_local [OF e])
  also have "\<dots> = map (below ?p) (filter ?sub (descendants (snd e)))"
    by (simp add: filter_map o_def hit_below)
  finally show ?thesis by (simp add: find_in_def)
qed

lemma single_reroot: "[e] = map (below (fst e)) (document (snd e))"
  by (simp add: document_def below_def)

lemma find_in_single:
  assumes "e \<in> set (descendants doc)" and "[] \<notin> set sels"
  shows "find_in doc sels [e] = map (below (fst e)) (find_in (snd e) sels (document (snd e)))"
  using find_in_reroot [OF assms, of "document (snd e)"] by (simp add: single_reroot [symmetric])

lemma text_of_below [simp]: "text_of (map (below p) sel) = text_of sel"
  by (simp add: text_of_def o_def split_def)

lemma eq_at_below [simp]: "eq_at (map (below p) sel) i = map (below p) (eq_at sel i)"
  by (simp add: eq_at_def)

lemma first_of_below [simp]: "first_of (map (below p) sel) = map (below p) (first_of sel)"
  by (simp add: first_of_def take_map)

lemma cellText_below [simp]: "cellText (map (below p) cells) i = cellText cells i"
  by (simp add: cellText_def)

lemma intCell_below [simp]: "intCell (map (below p) cells) i = intCell cells i"
  by (simp add: intCell_def)

lemma floatCell_below [simp]: "floatCell (map (below p) cells) i = floatCell cells i"
  by (simp add: floatCell_def)

section \<open>A row and a table are decoded from their own subtree\<close>

lemma document_Nil: "document n = [([], n)]"
  by (simp add: document_def)

lemma teamNameOf_reroot:
  "e \<in> set (descendants doc) \<Longrightarrow>
   teamNameOf doc (map (below (fst e)) cells) = teamNameOf (snd e) cells"
  by (simp add: teamNameOf_def find_in_reroot Let_def)

lemma playerNameOf_reroot:
  "e \<in> set (descendants doc) \<Longrightarrow>
   playerNameOf doc (map (below (fst e)) cells) = playerNameOf (snd e) cells"
  by (simp add: playerNameOf_def find_in_reroot Let_def)

lemma goalieNameOf_reroot:
  "e \<in> set (descendants doc) \<Longrightarrow>
   goalieNameOf doc (map (below (fst e)) cells) = goalieNameOf (snd e) cells"
  by (simp add: goalieNameOf_def find_in_reroot Let_def)

lemma standingsRow_local:
  assumes "row \<in> set (descendants doc)"
  shows "standingsRow doc teams row = standingsRow (snd row) teams ([], snd row)"
  by (simp add: standingsRow_def find_in_single [OF assms] teamNameOf_reroot [OF assms]
      document_Nil Let_def)

lemma playerRow_local:
  assumes "snd ir \<in> set (descendants doc)"
  shows "playerRow doc players ir = playerRow (snd (snd ir)) players (fst ir, [], snd (snd ir))"
  by (simp add: playerRow_def find_in_single [OF assms] playerNameOf_reroot [OF assms]
      document_Nil Let_def)

lemma goalieRow_local:
  assumes "snd ir \<in> set (descendants doc)"
  shows "goalieRow doc goalies ir = goalieRow (snd (snd ir)) goalies (fst ir, [], snd (snd ir))"
  by (simp add: goalieRow_def find_in_single [OF assms] goalieNameOf_reroot [OF assms]
      find_in_reroot [OF assms] document_Nil Let_def)

lemma find_in_subset: "set (find_in doc sels ctx) \<subseteq> set (descendants doc)"
  by (auto simp: find_in_def)

lemma divisionTeams_local:
  assumes "index < length tables" and "tables ! index \<in> set (descendants doc)"
  shows "divisionTeams doc tables index
         = divisionTeams (snd (tables ! index)) (document (snd (tables ! index))) 0"
proof -
  let ?t = "tables ! index"
  let ?T = "snd ?t"
  let ?rows = "find_in ?T [[Compound ''tbody'' [], Compound ''tr'' []]] (document ?T)"
  have rows: "find_in doc [[Compound ''tbody'' [], Compound ''tr'' []]] [?t]
              = map (below (fst ?t)) ?rows"
    by (rule find_in_single [OF assms(2)]) simp
  have "foldl (standingsRow doc) teams (map (below (fst ?t)) rs)
        = foldl (standingsRow ?T) teams rs" if "set rs \<subseteq> set (descendants ?T)" for rs teams
    using that
  proof (induction rs arbitrary: teams)
    case Nil
    then show ?case by simp
  next
    case (Cons r rs)
    then have r: "r \<in> set (descendants ?T)" by simp
    have "standingsRow doc teams (below (fst ?t) r) = standingsRow (snd r) teams ([], snd r)"
      using standingsRow_local [OF descendants_trans [OF assms(2) r]] by simp
    also have "\<dots> = standingsRow ?T teams r"
      using standingsRow_local [OF r] by simp
    finally show ?case using Cons by simp
  qed
  from this [OF find_in_subset] show ?thesis
    using assms(1) by (simp add: divisionTeams_def rows document_Nil Let_def)
qed

section \<open>Tables and rows in tree terms\<close>

lemma inside_iff: "inside ctx p \<longleftrightarrow> list_ex (\<lambda>c. properPrefix (fst c) p) ctx"
  by (simp add: inside_def split_def)

lemma find1_mem:
  "e \<in> set (find1 doc c ctx) \<longleftrightarrow> e \<in> set (descendants doc) \<and> matches c (snd e) \<and> inside ctx (fst e)"
  by (auto simp: find1_def)

lemma filter_mem_filter: "filter (\<lambda>e. e \<in> set (filter P xs)) xs = filter P xs"
  by (rule filter_cong) auto

lemma find_in_one: "find_in doc [[c]] ctx = find1 doc c ctx"
proof -
  have "find_in doc [[c]] ctx = filter (\<lambda>e. e \<in> set (find1 doc c ctx)) (descendants doc)"
    by (simp add: find_in_def findChain_def)
  also have "\<dots> = find1 doc c ctx"
    unfolding find1_def by (rule filter_mem_filter)
  finally show ?thesis .
qed

lemma find_in_two: "find_in doc [[a, b]] ctx = find1 doc b (find1 doc a ctx)"
proof -
  have "find_in doc [[a, b]] ctx
        = filter (\<lambda>e. e \<in> set (find1 doc b (find1 doc a ctx))) (descendants doc)"
    by (simp add: find_in_def findChain_def)
  also have "\<dots> = find1 doc b (find1 doc a ctx)"
    unfolding find1_def [of doc b] by (rule filter_mem_filter)
  finally show ?thesis .
qed

lemma inside_document: "(p, m) \<in> set (descendants n) \<Longrightarrow> inside (document n) p"
  by (auto simp: inside_def document_def dest: descendants_nonempty_path)

lemma find1_document: "find1 n (Compound tg []) (document n) = elementsOf tg n"
  unfolding find1_def elementsOf_def
  by (rule filter_cong) (auto simp: inside_document)

lemma find1_document_any:
  "find1 n c (document n) = filter (\<lambda>e. matches c (snd e)) (descendants n)"
  unfolding find1_def
  by (rule filter_cong) (auto simp: inside_document)

lemma cells_of_row:
  assumes "row \<in> set (descendants doc)"
  shows "find_in doc [[Compound ''td'' []]] [row] = map (below (fst row)) (elementsOf ''td'' (snd row))"
  using find_in_single [OF assms, of "[[Compound ''td'' []]]"]
  by (simp add: find_in_one find1_document)

lemma tbodyRows_find: "find_in T [[Compound ''tbody'' [], Compound ''tr'' []]] (document T) = tbodyRows T"
proof -
  have "find1 T (Compound ''tr'' []) (elementsOf ''tbody'' T) = tbodyRows T"
    unfolding tbodyRows_def find1_def
    by (rule filter_cong) (auto simp: inside_iff)
  then show ?thesis by (simp add: find_in_two find1_document)
qed

lemma rows_of_table:
  assumes "table \<in> set (descendants doc)"
  shows "find_in doc [[Compound ''tbody'' [], Compound ''tr'' []]] [table]
         = map (below (fst table)) (tbodyRows (snd table))"
  using find_in_single [OF assms, of "[[Compound ''tbody'' [], Compound ''tr'' []]]"]
  by (simp add: tbodyRows_find)

lemma tableTeams_eq: "divisionTeams T (document T) 0 = tableTeams T"
  by (simp add: divisionTeams_def tableTeams_def document_Nil tbodyRows_find [unfolded document_Nil])

lemma divisionTeams_table:
  assumes "index < length tables" and "tables ! index \<in> set (descendants doc)"
  shows "divisionTeams doc tables index = tableTeams (snd (tables ! index))"
  using divisionTeams_local [OF assms] by (simp add: tableTeams_eq)

lemma standingsTables_subset: "set (standingsTables doc) \<subseteq> set (descendants doc)"
  unfolding standingsTables_def using find_in_subset by auto

lemma hasStandingsData_local:
  assumes t: "table \<in> set (descendants doc)"
  shows "hasStandingsData doc table = hasWideRow (snd table)"
proof -
  let ?p = "fst table" and ?T = "snd table"
  let ?tbs = "elementsOf ''tbody'' ?T"
  let ?rows = "find1 ?T (Compound ''tr'' []) ?tbs"
  have tb: "find_in doc [[Compound ''tbody'' []]] [table] = map (below ?p) ?tbs"
    using find_in_single [OF t, of "[[Compound ''tbody'' []]]"]
    by (simp add: find_in_one find1_document)
  have rows: "find_in doc [[Compound ''tr'' []]] (map (below ?p) ?tbs) = map (below ?p) ?rows"
    using find_in_reroot [OF t, of "[[Compound ''tr'' []]]" ?tbs] by (simp add: find_in_one)
  have cells: "length (find_in doc [[Compound ''td'' []]] [below ?p r])
               = length (elementsOf ''td'' (snd r))" if "r \<in> set ?rows" for r
  proof -
    from that find1_subset have "r \<in> set (descendants ?T)" by blast
    from descendants_trans [OF t this] show ?thesis
      by (simp add: cells_of_row)
  qed
  have "hasStandingsData doc table
        \<longleftrightarrow> (\<exists>r \<in> set ?rows. 8 \<le> length (elementsOf ''td'' (snd r)))"
    by (auto simp: hasStandingsData_def tb rows Let_def list_ex_iff cells)
  also have "\<dots> \<longleftrightarrow> hasWideRow ?T"
  proof
    assume "\<exists>r \<in> set ?rows. 8 \<le> length (elementsOf ''td'' (snd r))"
    then obtain r where r: "r \<in> set ?rows" "8 \<le> length (elementsOf ''td'' (snd r))" by blast
    from r(1) have rd: "r \<in> set (descendants ?T)" "matches (Compound ''tr'' []) (snd r)"
        "inside ?tbs (fst r)"
      by (simp_all add: find1_mem)
    from rd(3) obtain b where b: "b \<in> set ?tbs" "properPrefix (fst b) (fst r)"
      by (auto simp: inside_iff list_ex_iff)
    from b(1) have bd: "b \<in> set (descendants ?T)" by (simp add: elementsOf_def)
    from rd(1) b(2) have "r \<in> set (filter (\<lambda>e'. properPrefix (fst b) (fst e')) (descendants ?T))"
      by simp
    then obtain r0 where r0: "r0 \<in> set (descendants (snd b))" "r = below (fst b) r0"
      unfolding descendants_local [OF bd] by auto
    with rd(2) r(2) have "r0 \<in> set (elementsOf ''tr'' (snd b))"
        "8 \<le> length (elementsOf ''td'' (snd r0))"
      by (simp_all add: elementsOf_def)
    with b(1) show "hasWideRow ?T"
      unfolding hasWideRow_def list_ex_iff by blast
  next
    assume "hasWideRow ?T"
    then obtain b r0 where br: "b \<in> set ?tbs" "r0 \<in> set (elementsOf ''tr'' (snd b))"
        "8 \<le> length (elementsOf ''td'' (snd r0))"
      unfolding hasWideRow_def list_ex_iff by blast
    from br(1) have bd: "b \<in> set (descendants ?T)" by (simp add: elementsOf_def)
    from br(2) have r0: "r0 \<in> set (descendants (snd b))" "matches (Compound ''tr'' []) (snd r0)"
      by (simp_all add: elementsOf_def)
    let ?r = "below (fst b) r0"
    have "?r \<in> set (descendants ?T)" by (rule descendants_trans [OF bd r0(1)])
    moreover have "properPrefix (fst b) (fst ?r)"
      using descendants_nonempty_path [OF r0(1)] by (simp add: properPrefix_same)
    then have "inside ?tbs (fst ?r)"
      using br(1) by (auto simp: inside_iff list_ex_iff)
    ultimately have "?r \<in> set ?rows"
      using r0(2) by (simp add: find1_mem)
    with br(3) show "\<exists>r \<in> set ?rows. 8 \<le> length (elementsOf ''td'' (snd r))"
      by (intro bexI [of _ ?r]) simp_all
  qed
  finally show ?thesis .
qed

lemma standingsTables_tree:
  "standingsTables doc = filter (\<lambda>table. hasWideRow (snd table)) (elementsOf ''table'' doc)"
proof -
  have "standingsTables doc = filter (hasStandingsData doc) (elementsOf ''table'' doc)"
    by (simp add: standingsTables_def find_in_one find1_document)
  also have "\<dots> = filter (\<lambda>table. hasWideRow (snd table)) (elementsOf ''table'' doc)"
    by (rule filter_cong) (auto simp: elementsOf_def hasStandingsData_local)
  finally show ?thesis .
qed

section \<open>The row functions in tree terms\<close>

lemma lower_labels:
  "toLowerCase ''Team'' = ''team''" "toLowerCase ''Player'' = ''player''"
  "toLowerCase ''Goalie'' = ''goalie''"
  by code_simp+

lemma cells_self: "find_in R [[Compound ''td'' []]] [([], R)] = elementsOf ''td'' R"
  using find1_document [of R "''td''"] by (simp add: find_in_one document_Nil)

lemma standingsRow_tree:
  assumes "row \<in> set (descendants doc)"
  shows "standingsRow doc teams row =
     (let cells = elementsOf ''td'' (snd row); teamName = teamNameOf (snd row) cells
      in if dropped 8 ''Team'' cells teamName then teams
         else teams @
           [\<lparr>ts_team = teamName, ts_gp = intCell cells 1, ts_w = intCell cells 2,
              ts_l = intCell cells 3, ts_t = intCell cells 4, ts_otl = intCell cells 5,
              ts_pts = intCell cells 6, ts_wpct = floatCell cells 7,
              ts_position = length teams + 1\<rparr>])"
  unfolding standingsRow_local [OF assms]
  by (simp add: standingsRow_def cells_self dropped_def lower_labels Let_def)

lemma playerRow_tree:
  assumes "row \<in> set (descendants doc)"
  shows "playerRow doc players (index, row) =
     (let cells = elementsOf ''td'' (snd row); playerName = playerNameOf (snd row) cells
      in if dropped 16 ''Player'' cells playerName then players
         else players @
           [\<lparr>ps_rank = index + 1, ps_name = playerName, ps_jerseyNumber = cellText cells 2,
              ps_position = cellText cells 3, ps_team = cellText cells 4,
              ps_gp = intCell cells 5, ps_goals = intCell cells 6, ps_assists = intCell cells 7,
              ps_points = intCell cells 8, ps_pointsPerGame = floatCell cells 9,
              ps_ppg = intCell cells 10, ps_ppa = intCell cells 11, ps_shg = intCell cells 12,
              ps_sha = intCell cells 13, ps_gwg = intCell cells 14, ps_pim = intCell cells 15\<rparr>])"
proof -
  have "snd (index, row) \<in> set (descendants doc)" using assms by simp
  from playerRow_local [OF this] show ?thesis
    by (simp add: playerRow_def cells_self dropped_def lower_labels Let_def)
qed

lemma goalieRow_tree:
  assumes "row \<in> set (descendants doc)"
  shows "goalieRow doc goalies (index, row) =
     (let cells = elementsOf ''td'' (snd row); goalieName = goalieNameOf (snd row) cells
      in if dropped 16 ''Goalie'' cells goalieName then goalies
         else
           (let teamAbbrSpan = first_of (find_in (snd row) [[Compound ''span'' []]] (eq_at cells 2));
                team = (if length teamAbbrSpan > 0 then trim (text_of teamAbbrSpan)
                        else cellText cells 2)
            in goalies @
              [\<lparr>gs_rank = index + 1, gs_name = goalieName, gs_team = team,
                 gs_gp = intCell cells 3, gs_w = intCell cells 4, gs_l = intCell cells 5,
                 gs_t = intCell cells 6, gs_otl = intCell cells 7, gs_so = intCell cells 8,
                 gs_mp = intCell cells 9, gs_ga = intCell cells 10, gs_gaa = floatCell cells 11,
                 gs_gsaa = floatCell cells 12, gs_sa = intCell cells 13, gs_sv = intCell cells 14,
                 gs_svPct = floatCell cells 15, gs_goals = intCell cells 16,
                 gs_assists = intCell cells 17, gs_pim = intCell cells 18\<rparr>]))"
proof -
  have "snd (index, row) \<in> set (descendants doc)" using assms by simp
  from goalieRow_local [OF this] show ?thesis
    by (simp add: goalieRow_def cells_self dropped_def lower_labels Let_def cellText_def floatCell_def)
qed

lemma text_of_single: "text_of [e] = textContent (snd e)"
  by (simp add: text_of_def split_def)

lemma teamNameOf_tree:
  assumes "cell \<in> set (descendants doc)" and "eq_at cells 0 = [cell]"
  shows "teamNameOf doc cells =
     (let links = elementsOf ''a'' (snd cell);
          spans = filter (\<lambda>s. matches (Compound ''span'' [''d-sm-inline'']) (snd s)
                               \<and> inside links (fst s)) (descendants (snd cell))
      in if links \<noteq> [] then
           if spans \<noteq> [] then trim (text_of spans) else trim (text_of links)
         else trim (textContent (snd cell)))"
proof -
  let ?C = "snd cell" and ?p = "fst cell"
  have links: "find_in doc [[Compound ''a'' []]] [cell] = map (below ?p) (elementsOf ''a'' ?C)"
    using find_in_single [OF assms(1), of "[[Compound ''a'' []]]"]
    by (simp add: find_in_one find1_document)
  have spans: "find_in doc [[Compound ''span'' [''d-sm-inline'']]] (map (below ?p) (elementsOf ''a'' ?C))
      = map (below ?p) (find1 ?C (Compound ''span'' [''d-sm-inline'']) (elementsOf ''a'' ?C))"
    using find_in_reroot [OF assms(1), of "[[Compound ''span'' [''d-sm-inline'']]]"]
    by (simp add: find_in_one)
  show ?thesis
    by (simp add: teamNameOf_def assms(2) links spans Let_def text_of_single find1_def split_def)
qed

lemma teamNameOf_both_spans:
  assumes "cell \<in> set (descendants doc)" and "eq_at cells 0 = [cell]"
    and "snd cell = Elem ''td'' tcls [Elem ''a'' acls [Elem ''span'' fcls [Text full],
                                                      Elem ''span'' bcls [Text abbr]]]"
    and "''d-sm-inline'' \<in> set fcls" and "''d-sm-inline'' \<notin> set bcls"
  shows "teamNameOf doc cells = trim full"
  unfolding teamNameOf_tree [OF assms(1,2)]
  using assms(4,5)
  by (simp add: assms(3) elementsOf_def inside_iff text_of_def Let_def)

section \<open>Table selection on the stats pages\<close>

lemma header_rows: "find_in T [[Compound ''thead'' [], Compound ''tr'' []], [Compound ''tr'' []]] (document T)
                    = elementsOf ''tr'' T"
proof -
  let ?tr = "Compound ''tr'' []"
  have sub: "e \<in> set (find1 T ?tr (elementsOf ''tr'' T))
             \<or> e \<in> set (find1 T ?tr (find1 T (Compound ''thead'' []) (document T)))
             \<Longrightarrow> e \<in> set (descendants T) \<Longrightarrow> matches ?tr (snd e)" for e
    by (auto simp: find1_mem)
  have "find_in T [[Compound ''thead'' [], ?tr], [?tr]] (document T)
        = filter (\<lambda>e. e \<in> set (find1 T ?tr (find1 T (Compound ''thead'' []) (document T)))
                      \<or> e \<in> set (elementsOf ''tr'' T)) (descendants T)"
    by (simp add: find_in_def findChain_def find1_document)
  also have "\<dots> = filter (\<lambda>e. matches ?tr (snd e)) (descendants T)"
    by (rule filter_cong) (auto simp: find1_mem elementsOf_def)
  finally show ?thesis by (simp add: elementsOf_def)
qed

lemma looksLikePlayerStats_tree:
  assumes "table \<in> set (descendants doc)"
  shows "looksLikePlayerStats doc table = headerMatches (snd table)"
  using find_in_single [OF assms, of "[[Compound ''thead'' [], Compound ''tr'' []], [Compound ''tr'' []]]"]
  by (simp add: looksLikePlayerStats_def headerMatches_def header_rows first_of_def take_map Let_def)

lemma playerTable_tree:
  assumes "table \<in> set (descendants doc)"
  shows "playerTable doc players table =
     (if headerMatches (snd table)
      then foldl (playerRow doc) players
             (enumerate 0 (map (below (fst table)) (tbodyRows (snd table))))
      else players)"
  by (simp add: playerTable_def looksLikePlayerStats_tree [OF assms] rows_of_table [OF assms])

lemma foldl_cong_set:
  "(\<And>a x. x \<in> set xs \<Longrightarrow> f a x = g a x) \<Longrightarrow> foldl f a xs = foldl g a xs"
  by (induction xs arbitrary: a) simp_all

lemma playerStatsOf_tree:
  "playerStatsOf doc =
     foldl (\<lambda>players table.
              if headerMatches (snd table)
              then foldl (playerRow doc) players
                     (enumerate 0 (map (below (fst table)) (tbodyRows (snd table))))
              else players)
       [] (elementsOf ''table'' doc)"
proof -
  have "playerStatsOf doc = foldl (playerTable doc) [] (elementsOf ''table'' doc)"
    by (simp add: playerStatsOf_def find_in_one find1_document)
  also have "\<dots> = foldl (\<lambda>players table.
              if headerMatches (snd table)
              then foldl (playerRow doc) players
                     (enumerate 0 (map (below (fst table)) (tbodyRows (snd table))))
              else players)
       [] (elementsOf ''table'' doc)"
    by (rule foldl_cong_set) (simp add: elementsOf_def playerTable_tree)
  finally show ?thesis .
qed

lemma find1_set:
  "set (find1 doc c ctx) = {e \<in> set (descendants doc). matches c (snd e) \<and> inside ctx (fst e)}"
  by (auto simp: find1_def)

lemma leaders_rows:
  "find_in doc [[Compound ''tbody'' [], Compound ''tr'' []]]
     (find_in doc [[Compound ''table'' [''leaders'']]] (document doc)) = leadersRows doc"
proof -
  let ?tables = "find1 doc (Compound ''table'' [''leaders'']) (document doc)"
  have "find1 doc (Compound ''tr'' []) (find1 doc (Compound ''tbody'' []) ?tables) = leadersRows doc"
    unfolding leadersRows_def find1_def [of doc "Compound ''tr'' []"] split_def
  proof (rule filter_cong [OF refl])
    fix row
    assume "row \<in> set (descendants doc)"
    show "(matches (Compound ''tr'' []) (snd row)
             \<and> inside (find1 doc (Compound ''tbody'' []) ?tables) (fst row))
          \<longleftrightarrow> (matches (Compound ''tr'' []) (snd row)
             \<and> list_ex (\<lambda>tbody. properPrefix (fst tbody) (fst row)
                      \<and> list_ex (\<lambda>table. matches (Compound ''table'' [''leaders'']) (snd table)
                                           \<and> properPrefix (fst table) (fst tbody))
                           (descendants doc))
                  (elementsOf ''tbody'' doc))"
      unfolding inside_iff list_ex_iff elementsOf_def find1_document_any find1_set set_filter
      by blast
  qed
  then show ?thesis by (simp add: find_in_one find_in_two)
qed

lemma leadersRows_none:
  "find_in doc [[Compound ''table'' [''leaders'']]] (document doc) = [] \<Longrightarrow> leadersRows doc = []"
proof -
  assume "find_in doc [[Compound ''table'' [''leaders'']]] (document doc) = []"
  then have "leadersRows doc = find_in doc [[Compound ''tbody'' [], Compound ''tr'' []]] []"
    using leaders_rows [of doc] by simp
  also have "\<dots> = []"
    by (simp add: find_in_two find1_def inside_def)
  finally show ?thesis .
qed

lemma goalieStatsOf_tree:
  "goalieStatsOf doc = foldl (goalieRow doc) [] (enumerate 0 (leadersRows doc))"
  by (auto simp: goalieStatsOf_def Let_def leaders_rows leadersRows_none)

section \<open>Positions and ranks\<close>

lemma standings_positions_step:
  assumes "\<forall>i < length teams. ts_position (teams ! i) = i + 1"
  shows "\<forall>i < length (standingsRow doc teams row). ts_position (standingsRow doc teams row ! i) = i + 1"
  using assms by (auto simp: standingsRow_def Let_def nth_append)

lemma standings_positions_loop:
  assumes "\<forall>i < length teams. ts_position (teams ! i) = i + 1"
  shows "\<forall>i < length (foldl (standingsRow doc) teams rows).
           ts_position (foldl (standingsRow doc) teams rows ! i) = i + 1"
  using assms
proof (induction rows arbitrary: teams)
  case Nil
  then show ?case by simp
next
  case (Cons row rows)
  from Cons.IH [OF standings_positions_step [OF Cons.prems]] show ?case by simp
qed

lemma standings_positions:
  "i < length (divisionTeams doc tables index) \<Longrightarrow>
   ts_position (divisionTeams doc tables index ! i) = i + 1"
  using standings_positions_loop [of "[]" doc] by (auto simp: divisionTeams_def Let_def)

lemma rank_loop_player:
  "map ps_rank (foldl (playerRow doc) players (enumerate n rows))
   = map ps_rank players
     @ map (\<lambda>ir. fst ir + 1)
         (filter (\<lambda>ir. playerRow doc [] ir \<noteq> []) (enumerate n rows))"
proof (induction rows arbitrary: players n)
  case Nil
  then show ?case by simp
next
  case (Cons row rows)
  have step: "playerRow doc players (n, row) = players @ playerRow doc [] (n, row)"
    by (simp add: playerRow_def Let_def)
  have one: "map ps_rank (playerRow doc [] (n, row))
             = (if playerRow doc [] (n, row) \<noteq> [] then [n + 1] else [])"
    by (simp add: playerRow_def Let_def)
  show ?case
    using Cons.IH [of "playerRow doc players (n, row)" "Suc n"] one
    by (simp add: step)
qed

lemma rank_loop_goalie:
  "map gs_rank (foldl (goalieRow doc) goalies (enumerate n rows))
   = map gs_rank goalies
     @ map (\<lambda>ir. fst ir + 1)
         (filter (\<lambda>ir. goalieRow doc [] ir \<noteq> []) (enumerate n rows))"
proof (induction rows arbitrary: goalies n)
  case Nil
  then show ?case by simp
next
  case (Cons row rows)
  have step: "goalieRow doc goalies (n, row) = goalies @ goalieRow doc [] (n, row)"
    by (simp add: goalieRow_def Let_def)
  have one: "map gs_rank (goalieRow doc [] (n, row))
             = (if goalieRow doc [] (n, row) \<noteq> [] then [n + 1] else [])"
    by (simp add: goalieRow_def Let_def)
  show ?case
    using Cons.IH [of "goalieRow doc goalies (n, row)" "Suc n"] one
    by (simp add: step)
qed

section \<open>Facts about the division loops\<close>

lemma foldl_upd_lookup:
  "foldl (\<lambda>m k. m(k \<mapsto> f k)) m0 ks x = (if x \<in> set ks then Some (f x) else m0 x)"
  by (induction ks arbitrary: m0 rule: rev_induct) auto

lemma foldl_upd_dom: "dom (foldl (\<lambda>m k. m(k \<mapsto> f k)) m0 ks) = dom m0 \<union> set ks"
  by (auto simp: dom_def foldl_upd_lookup)

lemma try_catch_upd:
  "(case r of Inr stats \<Rightarrow> m(k \<mapsto> stats) | Inl e \<Rightarrow> m(k \<mapsto> [])) = m(k \<mapsto> caught r)"
  by (cases r) (simp_all add: caught_def)

lemma goalie_divisions:
  "divisions (scrapeGoalieStats fetch today) =
     foldl (\<lambda>m k. m(k \<mapsto> caught (scrapeDivisionGoalieStats fetch k))) Map.empty DIVISION_NAMES"
  by (simp add: scrapeGoalieStats_def try_catch_upd)

lemma player_divisions:
  "divisions (scrapePlayerStats fetch today) =
     foldl (\<lambda>m k. m(k \<mapsto> caught (scrapeDivisionStats fetch k))) Map.empty DIVISION_NAMES"
  by (simp add: scrapePlayerStats_def try_catch_upd)

lemma standings_divisions:
  "standingsDivisions doc =
     [''1-BRODEUR'' \<mapsto> divisionTeams doc (standingsTables doc) 0,
      ''2-MANNO'' \<mapsto> divisionTeams doc (standingsTables doc) 1,
      ''3-STEVENS NORTH'' \<mapsto> divisionTeams doc (standingsTables doc) 2,
      ''3-STEVENS SOUTH'' \<mapsto> divisionTeams doc (standingsTables doc) 3]"
  by (simp add: standingsDivisions_def DIVISION_NAMES_def Let_def enumerate_eq_zip upt_rec eval_nat_numeral)

lemma divisionTeams_take:
  "k < n \<Longrightarrow> divisionTeams doc (take n tables) k = divisionTeams doc tables k"
  by (simp add: divisionTeams_def)

lemma standings_lookup:
  "k < length DIVISION_NAMES \<Longrightarrow>
   standingsDivisions doc (DIVISION_NAMES ! k) = Some (divisionTeams doc (standingsTables doc) k)"
proof -
  assume "k < length DIVISION_NAMES"
  then have "k = 0 \<or> k = 1 \<or> k = 2 \<or> k = 3"
    by (auto simp: DIVISION_NAMES_def)
  then show ?thesis
    by (auto simp: standings_divisions DIVISION_NAMES_def)
qed

lemma scrapeStandings_Inr:
  "scrapeStandings fetch today = Inr snap \<Longrightarrow>
   \<exists>response doc. fetch HNA_STANDINGS_URL = Inr response \<and> resp_ok response
      \<and> resp_body response = Inr doc \<and> snap = \<lparr>date = today, divisions = standingsDivisions doc\<rparr>"
  by (auto simp: scrapeStandings_def split: sum.splits if_splits)

lemma flakyFetch_standings: "flakyFetch HNA_STANDINGS_URL = Inr (okResponse standingsPage)"
  by (simp add: flakyFetch_def HNA_STANDINGS_URL_def buildGoalieStatsUrl_def HNA_BASE_URL_def
      HNA_STATS_BASE_URL_def CLIENT_ID_def LEAGUE_ID_def DIVISION_IDS_def)

section \<open>The example pages\<close>

lemma exampleTable_teams:
  "tableTeams exampleTable =
     [\<lparr>ts_team = ''Stealth'', ts_gp = 10, ts_w = 7, ts_l = 2, ts_t = 1, ts_otl = 0, ts_pts = 15,
        ts_wpct = Finite (3 / 4), ts_position = 1\<rparr>,
      \<lparr>ts_team = ''Devils'', ts_gp = 10, ts_w = 6, ts_l = 3, ts_t = 1, ts_otl = 0, ts_pts = 13,
        ts_wpct = Finite (13 / 20), ts_position = 2\<rparr>]"
  by code_simp

lemma standingsPage_tables:
  "length (standingsTables standingsPage) = 2"
  "standingsTables standingsPage ! 0 = ([1], exampleTable)"
  "([1], exampleTable) \<in> set (descendants standingsPage)"
  "map ts_team (tableTeams (snd (standingsTables standingsPage ! Suc 0))) = [''Knights'']"
  by code_simp+

lemma example_rows:
  "([1, 0, 2], emptyRow) \<in> set (descendants standingsPage)"
  "([1, 0, 0], stealthRow) \<in> set (descendants standingsPage)"
  "([0, 1, 0], trOf [''Scoring leaders'']) \<in> set (descendants playerPage)"
  "([0, 0, 0], goalieHeaderRow) \<in> set (descendants goaliePage)"
  by code_simp+

lemma example_rows_dropped:
  "dropped 8 ''Team'' (elementsOf ''td'' emptyRow) (teamNameOf emptyRow (elementsOf ''td'' emptyRow))"
  "\<not> dropped 8 ''Team'' (elementsOf ''td'' stealthRow) (teamNameOf stealthRow (elementsOf ''td'' stealthRow))"
  "dropped 16 ''Player'' (elementsOf ''td'' (trOf [''Scoring leaders'']))
     (playerNameOf (trOf [''Scoring leaders'']) (elementsOf ''td'' (trOf [''Scoring leaders''])))"
  "dropped 16 ''Goalie'' (elementsOf ''td'' goalieHeaderRow)
     (goalieNameOf goalieHeaderRow (elementsOf ''td'' goalieHeaderRow))"
  by code_simp+


section \<open>Claims\<close>



text \<open>
  C3. For player stats and goalie stats: the snapshot gives every division of
  \<open>DIVISION_NAMES\<close> the records its own page decoded to, or the empty list when
  fetching or reading that page threw, whatever happened to the other divisions; the
  loop is a total function, so a snapshot is always returned. A response that is not ok
  throws an \<^verbatim>\<open>Error\<close>, and a rejected fetch is passed on, so both end as an empty list.
\<close>

theorem C3_failure_isolated:
  assumes "divisionName \<in> set DIVISION_NAMES"
  shows "divisions (scrapeGoalieStats fetch today) divisionName =
           Some (case scrapeDivisionGoalieStats fetch divisionName of
                   Inl e \<Rightarrow> [] | Inr stats \<Rightarrow> stats)
         \<and> divisions (scrapePlayerStats fetch today) divisionName =
           Some (case scrapeDivisionStats fetch divisionName of
                   Inl e \<Rightarrow> [] | Inr stats \<Rightarrow> stats)
         \<and> (\<forall>response. fetch (buildGoalieStatsUrl divisionName) = Inr response
               \<and> \<not> resp_ok response
             \<longrightarrow> (\<exists>msg. scrapeDivisionGoalieStats fetch divisionName = Inl (Error msg)))
         \<and> (\<forall>response. fetch (HNA_STATS_BASE_URL @ ''&divID='' @ DIVISION_IDS divisionName)
                 = Inr response \<and> \<not> resp_ok response
             \<longrightarrow> (\<exists>msg. scrapeDivisionStats fetch divisionName = Inl (Error msg)))
         \<and> (\<forall>e. fetch (buildGoalieStatsUrl divisionName) = Inl e
             \<longrightarrow> scrapeDivisionGoalieStats fetch divisionName = Inl e)
         \<and> (\<forall>e. fetch (HNA_STATS_BASE_URL @ ''&divID='' @ DIVISION_IDS divisionName) = Inl e
             \<longrightarrow> scrapeDivisionStats fetch divisionName = Inl e)"
proof -
  have "divisions (scrapeGoalieStats fetch today) divisionName =
          Some (caught (scrapeDivisionGoalieStats fetch divisionName))"
    using assms by (simp add: goalie_divisions foldl_upd_lookup)
  moreover have "divisions (scrapePlayerStats fetch today) divisionName =
          Some (caught (scrapeDivisionStats fetch divisionName))"
    using assms by (simp add: player_divisions foldl_upd_lookup)
  moreover have "\<exists>msg. scrapeDivisionGoalieStats fetch divisionName = Inl (Error msg)"
    if "fetch (buildGoalieStatsUrl divisionName) = Inr response" "\<not> resp_ok response" for response
    using that by (simp add: scrapeDivisionGoalieStats_def)
  moreover have "\<exists>msg. scrapeDivisionStats fetch divisionName = Inl (Error msg)"
    if "fetch (HNA_STATS_BASE_URL @ ''&divID='' @ DIVISION_IDS divisionName) = Inr response"
      "\<not> resp_ok response" for response
    using that by (simp add: scrapeDivisionStats_def)
  moreover have "scrapeDivisionGoalieStats fetch divisionName = Inl e"
    if "fetch (buildGoalieStatsUrl divisionName) = Inl e" for e
    using that by (simp add: scrapeDivisionGoalieStats_def)
  moreover have "scrapeDivisionStats fetch divisionName = Inl e"
    if "fetch (HNA_STATS_BASE_URL @ ''&divID='' @ DIVISION_IDS divisionName) = Inl e" for e
    using that by (simp add: scrapeDivisionStats_def)
  ultimately show ?thesis
    unfolding caught_def by blast
qed

theorem C3_failure_isolated_witness:
  "''2-MANNO'' \<in> set DIVISION_NAMES \<and> ''1-BRODEUR'' \<in> set DIVISION_NAMES
   \<and> scrapeDivisionGoalieStats flakyFetch ''2-MANNO''
       = Inl (Error ''Failed to fetch goalie stats for 2-MANNO: 503 Service Unavailable'')
   \<and> divisions (scrapeGoalieStats flakyFetch ''2026-01-01'') ''2-MANNO'' = Some []
   \<and> scrapeDivisionStats flakyFetch ''2-MANNO'' = Inl (Rejected ''network error'')
   \<and> divisions (scrapePlayerStats flakyFetch ''2026-01-01'') ''2-MANNO'' = Some []
   \<and> map_option (map gs_name) (divisions (scrapeGoalieStats flakyFetch ''2026-01-01'') ''1-BRODEUR'')
       = Some [''A. Smith'']
   \<and> map_option (map ps_name) (divisions (scrapePlayerStats flakyFetch ''2026-01-01'') ''1-BRODEUR'')
       = Some [''B. Jones'']"
proof -
  have m: "''2-MANNO'' \<in> set DIVISION_NAMES" and b: "''1-BRODEUR'' \<in> set DIVISION_NAMES"
    by (simp_all add: DIVISION_NAMES_def)
  have g2: "scrapeDivisionGoalieStats flakyFetch ''2-MANNO''
       = Inl (Error ''Failed to fetch goalie stats for 2-MANNO: 503 Service Unavailable'')"
    by code_simp
  have p2: "scrapeDivisionStats flakyFetch ''2-MANNO'' = Inl (Rejected ''network error'')"
    by code_simp
  have g1: "map gs_name (case scrapeDivisionGoalieStats flakyFetch ''1-BRODEUR'' of
                          Inl e \<Rightarrow> [] | Inr stats \<Rightarrow> stats) = [''A. Smith'']"
    by code_simp
  have p1: "map ps_name (case scrapeDivisionStats flakyFetch ''1-BRODEUR'' of
                          Inl e \<Rightarrow> [] | Inr stats \<Rightarrow> stats) = [''B. Jones'']"
    by code_simp
  from C3_failure_isolated [OF m, of flakyFetch "''2026-01-01''"]
    C3_failure_isolated [OF b, of flakyFetch "''2026-01-01''"] m b g2 p2 g1 p1
  show ?thesis by simp
qed

text \<open>
  C9. The divisions object of every snapshot that \<^verbatim>\<open>scrapeStandings\<close> returns, and of the
  snapshots of \<^verbatim>\<open>scrapePlayerStats\<close> and \<^verbatim>\<open>scrapeGoalieStats\<close> (which always return), has
  exactly the names of \<open>DIVISION_NAMES\<close> as its keys: four distinct names, whatever the
  fetches did and however many tables the pages hold. The standings divisions read the
  first four qualifying tables only.
\<close>

theorem C9_division_keys:
  "(\<forall>snap. scrapeStandings fetch today = Inr snap
      \<longrightarrow> dom (divisions snap) = set DIVISION_NAMES
          \<and> (\<exists>doc. divisions snap =
                (let tables = take 4 (standingsTables doc)
                 in [''1-BRODEUR'' \<mapsto> divisionTeams doc tables 0,
                     ''2-MANNO'' \<mapsto> divisionTeams doc tables 1,
                     ''3-STEVENS NORTH'' \<mapsto> divisionTeams doc tables 2,
                     ''3-STEVENS SOUTH'' \<mapsto> divisionTeams doc tables 3])))
   \<and> dom (divisions (scrapePlayerStats fetch today)) = set DIVISION_NAMES
   \<and> dom (divisions (scrapeGoalieStats fetch today)) = set DIVISION_NAMES
   \<and> length DIVISION_NAMES = 4 \<and> distinct DIVISION_NAMES"
proof -
  have "dom (divisions snap) = set DIVISION_NAMES
        \<and> (\<exists>doc. divisions snap =
              (let tables = take 4 (standingsTables doc)
               in [''1-BRODEUR'' \<mapsto> divisionTeams doc tables 0,
                   ''2-MANNO'' \<mapsto> divisionTeams doc tables 1,
                   ''3-STEVENS NORTH'' \<mapsto> divisionTeams doc tables 2,
                   ''3-STEVENS SOUTH'' \<mapsto> divisionTeams doc tables 3]))"
    if "scrapeStandings fetch today = Inr snap" for snap
  proof -
    from scrapeStandings_Inr [OF that] obtain doc where
      snap: "snap = \<lparr>date = today, divisions = standingsDivisions doc\<rparr>" by blast
    then have "dom (divisions snap) = set DIVISION_NAMES"
      by (auto simp: standings_divisions DIVISION_NAMES_def)
    moreover have "divisions snap =
              (let tables = take 4 (standingsTables doc)
               in [''1-BRODEUR'' \<mapsto> divisionTeams doc tables 0,
                   ''2-MANNO'' \<mapsto> divisionTeams doc tables 1,
                   ''3-STEVENS NORTH'' \<mapsto> divisionTeams doc tables 2,
                   ''3-STEVENS SOUTH'' \<mapsto> divisionTeams doc tables 3])"
      by (simp add: snap standings_divisions divisionTeams_take Let_def)
    ultimately show ?thesis by blast
  qed
  moreover have "dom (divisions (scrapePlayerStats fetch today)) = set DIVISION_NAMES"
    by (simp add: player_divisions foldl_upd_dom)
  moreover have "dom (divisions (scrapeGoalieStats fetch today)) = set DIVISION_NAMES"
    by (simp add: goalie_divisions foldl_upd_dom)
  moreover have "length DIVISION_NAMES = 4 \<and> distinct DIVISION_NAMES"
    by (simp add: DIVISION_NAMES_def)
  ultimately show ?thesis by blast
qed

theorem C9_division_keys_witness:
  "scrapeStandings flakyFetch ''2026-01-01''
     = Inr \<lparr>date = ''2026-01-01'', divisions = standingsDivisions standingsPage\<rparr>
   \<and> dom (standingsDivisions standingsPage) = set DIVISION_NAMES
   \<and> dom (divisions (scrapePlayerStats flakyFetch ''2026-01-01'')) = set DIVISION_NAMES
   \<and> dom (divisions (scrapeGoalieStats flakyFetch ''2026-01-01'')) = set DIVISION_NAMES"
proof -
  have s: "scrapeStandings flakyFetch ''2026-01-01''
     = Inr \<lparr>date = ''2026-01-01'', divisions = standingsDivisions standingsPage\<rparr>"
    by (simp add: scrapeStandings_def flakyFetch_standings okResponse_def)
  note c9 = C9_division_keys [of flakyFetch "''2026-01-01''"]
  from c9 s have "dom (standingsDivisions standingsPage) = set DIVISION_NAMES"
    by auto
  with c9 s show ?thesis by blast
qed

text \<open>
  C2. Standings. The qualifying tables are the table elements of the document, in
  document order, that have a row inside a tbody with 8 or more td cells, and no others.
  For each k below 4, the k-th name of \<open>DIVISION_NAMES\<close> (counting from 0) gets the
  records decoded from the rows of the k-th qualifying table, and the empty list when
  there are k qualifying tables or fewer; when the page was fetched and read, the scraper
  returns the snapshot with these divisions and no error.
\<close>

theorem C2_tables_by_document_order:
  "standingsTables doc = filter (\<lambda>table. hasWideRow (snd table)) (elementsOf ''table'' doc)
   \<and> (\<forall>k < length DIVISION_NAMES.
         standingsDivisions doc (DIVISION_NAMES ! k)
         = Some (if k < length (standingsTables doc)
                 then tableTeams (snd (standingsTables doc ! k)) else []))
   \<and> length DIVISION_NAMES = 4
   \<and> (\<forall>response. fetch HNA_STANDINGS_URL = Inr response \<and> resp_ok response
          \<and> resp_body response = Inr doc
        \<longrightarrow> scrapeStandings fetch today = Inr \<lparr>date = today, divisions = standingsDivisions doc\<rparr>)"
proof -
  have "standingsDivisions doc (DIVISION_NAMES ! k)
        = Some (if k < length (standingsTables doc)
                then tableTeams (snd (standingsTables doc ! k)) else [])"
    if k: "k < length DIVISION_NAMES" for k
  proof (cases "k < length (standingsTables doc)")
    case True
    then have "standingsTables doc ! k \<in> set (descendants doc)"
      using standingsTables_subset nth_mem by blast
    from divisionTeams_table [OF True this] True show ?thesis
      by (simp add: standings_lookup [OF k])
  next
    case False
    then show ?thesis
      by (simp add: standings_lookup [OF k] divisionTeams_def)
  qed
  moreover have "scrapeStandings fetch today = Inr \<lparr>date = today, divisions = standingsDivisions doc\<rparr>"
    if "fetch HNA_STANDINGS_URL = Inr response" "resp_ok response" "resp_body response = Inr doc"
    for response
    using that by (simp add: scrapeStandings_def)
  moreover have "length DIVISION_NAMES = 4"
    by (simp add: DIVISION_NAMES_def)
  ultimately show ?thesis
    using standingsTables_tree [of doc] by blast
qed

theorem C2_tables_by_document_order_witness:
  "length (standingsTables standingsPage) = 2
   \<and> map_option (map ts_team) (standingsDivisions standingsPage ''1-BRODEUR'')
       = Some [''Stealth'', ''Devils'']
   \<and> map_option (map ts_team) (standingsDivisions standingsPage ''2-MANNO'') = Some [''Knights'']
   \<and> standingsDivisions standingsPage ''3-STEVENS NORTH'' = Some []
   \<and> standingsDivisions standingsPage ''3-STEVENS SOUTH'' = Some []
   \<and> scrapeStandings flakyFetch ''2026-01-01''
       = Inr \<lparr>date = ''2026-01-01'', divisions = standingsDivisions standingsPage\<rparr>"
proof -
  note c2 = C2_tables_by_document_order [of standingsPage flakyFetch "''2026-01-01''"]
  from c2 have k: "standingsDivisions standingsPage (DIVISION_NAMES ! k)
         = Some (if k < length (standingsTables standingsPage)
                 then tableTeams (snd (standingsTables standingsPage ! k)) else [])"
    if "k < length DIVISION_NAMES" for k
    using that by blast
  have n: "DIVISION_NAMES ! 0 = ''1-BRODEUR''" "DIVISION_NAMES ! Suc 0 = ''2-MANNO''"
      "DIVISION_NAMES ! 2 = ''3-STEVENS NORTH''" "DIVISION_NAMES ! 3 = ''3-STEVENS SOUTH''"
      "length DIVISION_NAMES = 4"
    by (simp_all add: DIVISION_NAMES_def)
  have s: "scrapeStandings flakyFetch ''2026-01-01''
       = Inr \<lparr>date = ''2026-01-01'', divisions = standingsDivisions standingsPage\<rparr>"
    using c2 flakyFetch_standings by (simp add: okResponse_def)
  from k [of 0] k [of "Suc 0"] k [of 2] k [of 3] s show ?thesis
    by (simp add: n standingsPage_tables exampleTable_teams)
qed

text \<open>
  C8. Wherever the table of the example (\<open>exampleTable\<close>: one tbody with the rows Stealth,
  Devils and a row of eight empty cells) stands among the tables matched to the divisions,
  its division decodes to exactly two records: Stealth at position 1 with 15 points and
  win percentage 0.75, and Devils at position 2 with 13 points and 0.65. The empty row
  gives no record.
\<close>

theorem C8_example_decodes:
  assumes "index < length tables" and "tables ! index \<in> set (descendants doc)"
    and "snd (tables ! index) = exampleTable"
  shows "divisionTeams doc tables index =
     [\<lparr>ts_team = ''Stealth'', ts_gp = 10, ts_w = 7, ts_l = 2, ts_t = 1, ts_otl = 0, ts_pts = 15,
        ts_wpct = Finite (3 / 4), ts_position = 1\<rparr>,
      \<lparr>ts_team = ''Devils'', ts_gp = 10, ts_w = 6, ts_l = 3, ts_t = 1, ts_otl = 0, ts_pts = 13,
        ts_wpct = Finite (13 / 20), ts_position = 2\<rparr>]"
  using divisionTeams_table [OF assms(1,2)] by (simp only: assms(3) exampleTable_teams)

theorem C8_example_decodes_witness:
  "0 < length (standingsTables standingsPage)
   \<and> standingsTables standingsPage ! 0 \<in> set (descendants standingsPage)
   \<and> snd (standingsTables standingsPage ! 0) = exampleTable
   \<and> divisionTeams standingsPage (standingsTables standingsPage) 0 =
     [\<lparr>ts_team = ''Stealth'', ts_gp = 10, ts_w = 7, ts_l = 2, ts_t = 1, ts_otl = 0, ts_pts = 15,
        ts_wpct = Finite (3 / 4), ts_position = 1\<rparr>,
      \<lparr>ts_team = ''Devils'', ts_gp = 10, ts_w = 6, ts_l = 3, ts_t = 1, ts_otl = 0, ts_pts = 13,
        ts_wpct = Finite (13 / 20), ts_position = 2\<rparr>]"
proof -
  have a: "0 < length (standingsTables standingsPage)"
    by (simp add: standingsPage_tables)
  have b: "standingsTables standingsPage ! 0 \<in> set (descendants standingsPage)"
    by (simp only: standingsPage_tables)
  have c: "snd (standingsTables standingsPage ! 0) = exampleTable"
    by (simp add: standingsPage_tables)
  from C8_example_decodes [OF a b c] a b c show ?thesis by simp
qed

text \<open>
  C5. A row of the document, with its td cells and the primary name decoded from them:
  when the row has fewer cells than the minimum (8 for standings, 16 for player and
  goalie stats), or the name is empty, or the name is the header label (Team, Player,
  Goalie) up to case, processing the row leaves the record array as it was; otherwise
  exactly one record is appended.
\<close>

theorem C5_rows_dropped:
  assumes "row \<in> set (descendants doc)"
  shows "(let cells = elementsOf ''td'' (snd row)
          in (dropped 8 ''Team'' cells (teamNameOf (snd row) cells)
                \<longrightarrow> standingsRow doc teams row = teams)
           \<and> (dropped 16 ''Player'' cells (playerNameOf (snd row) cells)
                \<longrightarrow> playerRow doc players (index, row) = players)
           \<and> (dropped 16 ''Goalie'' cells (goalieNameOf (snd row) cells)
                \<longrightarrow> goalieRow doc goalies (index, row) = goalies)
           \<and> (\<not> dropped 8 ''Team'' cells (teamNameOf (snd row) cells)
                \<longrightarrow> length (standingsRow doc teams row) = Suc (length teams))
           \<and> (\<not> dropped 16 ''Player'' cells (playerNameOf (snd row) cells)
                \<longrightarrow> length (playerRow doc players (index, row)) = Suc (length players))
           \<and> (\<not> dropped 16 ''Goalie'' cells (goalieNameOf (snd row) cells)
                \<longrightarrow> length (goalieRow doc goalies (index, row)) = Suc (length goalies)))"
  by (simp add: standingsRow_tree [OF assms] playerRow_tree [OF assms] goalieRow_tree [OF assms]
      Let_def)

theorem C5_rows_dropped_witness:
  "([1, 0, 2], emptyRow) \<in> set (descendants standingsPage)
   \<and> standingsRow standingsPage [] ([1, 0, 2], emptyRow) = []
   \<and> length (standingsRow standingsPage [] ([1, 0, 0], stealthRow)) = 1
   \<and> playerRow playerPage [] (0, [0, 1, 0], trOf [''Scoring leaders'']) = []
   \<and> goalieRow goaliePage [] (0, [0, 0, 0], goalieHeaderRow) = []"
proof -
  note r = example_rows and d = example_rows_dropped
  from C5_rows_dropped [OF r(1), where teams = "[]"] d(1)
  have "standingsRow standingsPage [] ([1, 0, 2], emptyRow) = []"
    by (simp add: Let_def)
  moreover from C5_rows_dropped [OF r(2), where teams = "[]"] d(2)
  have "length (standingsRow standingsPage [] ([1, 0, 0], stealthRow)) = 1"
    by (simp add: Let_def)
  moreover from C5_rows_dropped [OF r(3), where players = "[]" and index = 0] d(3)
  have "playerRow playerPage [] (0, [0, 1, 0], trOf [''Scoring leaders'']) = []"
    by (simp add: Let_def)
  moreover from C5_rows_dropped [OF r(4), where goalies = "[]" and index = 0] d(4)
  have "goalieRow goaliePage [] (0, [0, 0, 0], goalieHeaderRow) = []"
    by (simp add: Let_def)
  ultimately show ?thesis using r(1) by simp
qed

text \<open>
  C6. The team name of a standings row, decoded from its first cell: with a link inside
  the cell, the trimmed text of the spans of class \<^verbatim>\<open>d-sm-inline\<close> inside the links when
  there is one, and the trimmed text of the links otherwise; with no link, the trimmed
  text of the whole cell. For a cell holding one link with a full-name span (class
  \<^verbatim>\<open>d-sm-inline\<close>) followed by an abbreviation span (without that class), the name is the
  trimmed text of the full-name span.
\<close>

theorem C6_team_name_precedence:
  assumes "cell \<in> set (descendants doc)" and "eq_at cells 0 = [cell]"
  shows "teamNameOf doc cells =
     (let links = elementsOf ''a'' (snd cell);
          spans = filter (\<lambda>s. matches (Compound ''span'' [''d-sm-inline'']) (snd s)
                               \<and> inside links (fst s)) (descendants (snd cell))
      in if links \<noteq> [] then
           if spans \<noteq> [] then trim (text_of spans) else trim (text_of links)
         else trim (textContent (snd cell)))
   \<and> (\<forall>tcls acls fcls bcls full abbr.
         snd cell = Elem ''td'' tcls [Elem ''a'' acls [Elem ''span'' fcls [Text full],
                                                       Elem ''span'' bcls [Text abbr]]]
         \<and> ''d-sm-inline'' \<in> set fcls \<and> ''d-sm-inline'' \<notin> set bcls
         \<longrightarrow> teamNameOf doc cells = trim full)"
  using teamNameOf_tree [OF assms] teamNameOf_both_spans [OF assms] by blast

theorem C6_team_name_precedence_witness:
  "([0, 0, 0, 0], nameCell) \<in> set (descendants namePage)
   \<and> eq_at (elementsOf ''td'' namePage) 0 = [([0, 0, 0, 0], nameCell)]
   \<and> teamNameOf namePage (elementsOf ''td'' namePage) = ''Jersey Knights''
   \<and> trim (textContent nameCell) = ''Jersey Knights KNKL''"
proof -
  have a: "([0, 0, 0, 0], nameCell) \<in> set (descendants namePage)" by code_simp
  have b: "eq_at (elementsOf ''td'' namePage) 0 = [([0, 0, 0, 0], nameCell)]" by code_simp
  have c: "snd ([0 :: nat, 0, 0, 0], nameCell)
           = Elem ''td'' [] [Elem ''a'' [] [Elem ''span'' [''d-none'', ''d-sm-inline''] [Text '' Jersey Knights ''],
                                            Elem ''span'' [''d-sm-none''] [Text ''KNKL'']]]"
    by (simp add: nameCell_def)
  have d: "trim '' Jersey Knights '' = ''Jersey Knights''" by code_simp
  have e: "trim (textContent nameCell) = ''Jersey Knights KNKL''" by code_simp
  note both = C6_team_name_precedence [OF a b, THEN conjunct2, rule_format,
      where tcls = "[]" and acls = "[]" and fcls = "[''d-none'', ''d-sm-inline'']"
        and bcls = "[''d-sm-none'']" and full = "'' Jersey Knights ''" and abbr = "''KNKL''"]
  have "teamNameOf namePage (elementsOf ''td'' namePage) = trim '' Jersey Knights ''"
    by (rule both) (simp add: nameCell_def)
  with a b d e show ?thesis by simp
qed

text \<open>
  C7. Player stats: the tables of the page are visited in document order, and a table
  adds records exactly when the text of its first row, in lower case, contains
  \<^verbatim>\<open>player\<close>, \<^verbatim>\<open>gp\<close> and \<^verbatim>\<open>pts\<close>; the rows it then decodes are its rows inside a tbody
  (\<open>tbodyRows\<close>), counted from 0. Goalie stats: the rows decoded are the rows inside a
  tbody inside a table that the selector \<^verbatim>\<open>table.leaders\<close> matches (\<open>leadersRows\<close>), that is
  a table element with \<^verbatim>\<open>leaders\<close> among its classes. Rows outside a tbody are never
  decoded.
\<close>

theorem C7_table_selection:
  "playerStatsOf doc =
     foldl (\<lambda>players table.
              if headerMatches (snd table)
              then foldl (playerRow doc) players
                     (enumerate 0 (map (below (fst table)) (tbodyRows (snd table))))
              else players)
       [] (elementsOf ''table'' doc)
   \<and> goalieStatsOf doc = foldl (goalieRow doc) [] (enumerate 0 (leadersRows doc))
   \<and> (\<forall>tg cls ks. matches (Compound ''table'' [''leaders'']) (Elem tg cls ks)
          \<longleftrightarrow> tg = ''table'' \<and> ''leaders'' \<in> set cls)"
  using playerStatsOf_tree [of doc] goalieStatsOf_tree [of doc] by auto

theorem C7_table_selection_witness:
  "headerMatches (snd (hd (elementsOf ''table'' playerPage)))
   \<and> length (elementsOf ''tr'' playerPage) = 3
   \<and> map fst (tbodyRows (snd (hd (elementsOf ''table'' playerPage)))) = [[1, 0], [1, 1]]
   \<and> map ps_name (playerStatsOf playerPage) = [''B. Jones'']
   \<and> playerStatsOf goaliePage = []
   \<and> map fst (leadersRows goaliePage) = [[0, 0, 0], [0, 0, 1]]
   \<and> map gs_name (goalieStatsOf goaliePage) = [''A. Smith'']
   \<and> goalieStatsOf playerPage = []"
proof -
  note pp = C7_table_selection [of playerPage, THEN conjunct1]
    and pg = C7_table_selection [of goaliePage, THEN conjunct1]
    and gg = C7_table_selection [of goaliePage, THEN conjunct2, THEN conjunct1]
    and gp = C7_table_selection [of playerPage, THEN conjunct2, THEN conjunct1]
  have "headerMatches (snd (hd (elementsOf ''table'' playerPage)))" by code_simp
  moreover have "length (elementsOf ''tr'' playerPage) = 3" by code_simp
  moreover have "map fst (tbodyRows (snd (hd (elementsOf ''table'' playerPage)))) = [[1, 0], [1, 1]]"
    by code_simp
  moreover have "map ps_name (playerStatsOf playerPage) = [''B. Jones'']"
    unfolding pp by code_simp
  moreover have "playerStatsOf goaliePage = []"
    unfolding pg by code_simp
  moreover have "map fst (leadersRows goaliePage) = [[0, 0, 0], [0, 0, 1]]" by code_simp
  moreover have "map gs_name (goalieStatsOf goaliePage) = [''A. Smith'']"
    unfolding gg by code_simp
  moreover have "goalieStatsOf playerPage = []"
    unfolding gp by code_simp
  ultimately show ?thesis by blast
qed



text \<open>
  C1. On the two stats pages the rank is the index of the row among the rows inside the
  tbody, plus 1, so a row that is dropped before a record still takes a rank: the one
  goalie of \<open>goaliePage\<close> (a header row, then the goalie) and the one player of
  \<open>playerPage\<close> (a short row, then the player) both get rank 2 at index 0 of their record
  list. The positions of the standings records count the records kept: 1 and 2 for the
  example table.
\<close>

theorem C1_rank_counts_dropped_rows:
  "map gs_rank (goalieStatsOf goaliePage) = [2]
   \<and> map ps_rank (playerStatsOf playerPage) = [2]
   \<and> length (goalieStatsOf goaliePage) = 1 \<and> length (playerStatsOf playerPage) = 1
   \<and> map ts_position (tableTeams exampleTable) = [1, 2]"
  by code_simp

end
